theory Spec2Isabelle
  imports Main "HOL-Library.Word"
begin

section \<open>Data model\<close>

text \<open>
  Go's \<open>int64\<close> (session ids, deadlines in Unix nanoseconds, \<open>time.Duration\<close>) is a
  64-bit word: \<open>+\<close> wraps, and the comparisons of the source and of the SQL statements are
  the signed ones, \<open><s\<close> and \<open>\<le>s\<close>.
\<close>

type_synonym int64 = "64 word"
type_synonym byte = "8 word"

text \<open>\<open>type Session struct\<close>: one row of the \<open>sessions\<close> table.\<close>

record Session =
  ID :: int64
  Username :: string
  AuthToken :: string
  Deadline :: int64
  UserAgent :: string

text \<open>
  Errors as values. \<open>HTTPError\<close> is \<open>httperr.New\<close>; \<open>Wrap\<close> is \<open>errors.Wrap\<close>;
  \<open>ErrNoRows\<close> is \<open>sql.ErrNoRows\<close>; \<open>ErrDriver\<close> stands for any other failure that
  \<open>database/sql\<close> reports, \<open>ErrConstraint\<close> for a rejected insert, \<open>ErrEntropy\<close> for a
  failure of \<open>crypto/rand\<close>, \<open>ErrBcrypt\<close> for a failure of the password hasher.

  Modelled from the spec: the error values \<open>ErrInvalidPassword\<close>, \<open>ErrInvalidToken\<close> and
  \<open>ErrUsernameTaken\<close> are declared outside the files at hand; the error taxonomy names
  them as three kinds of their own.
\<close>

datatype error =
    HTTPError nat string
  | ErrNoRows
  | ErrDriver
  | ErrConstraint
  | ErrEntropy
  | ErrBcrypt
  | ErrInvalidPassword
  | ErrInvalidToken
  | ErrUsernameTaken
  | Wrap error string

definition ErrSessionNotFound :: error where
  "ErrSessionNotFound = HTTPError 401 ''session not found''"

definition ErrSessionExpired :: error where
  "ErrSessionExpired = HTTPError 410 ''session expired''"

text \<open>\<open>errors.Is\<close>: the target is the error itself or one it wraps.\<close>

fun errors_Is :: "error \<Rightarrow> error \<Rightarrow> bool" where
  "errors_Is (Wrap e m) t = (Wrap e m = t \<or> errors_Is e t)"
| "errors_Is e t = (e = t)"

section \<open>The world outside the package\<close>

text \<open>
  Everything the code reads from its surroundings is a field of \<open>world\<close>, indexed by the
  number of reads made so far:
  \<^item> \<open>clock\<close>: what the successive calls of \<open>time.Now().UnixNano()\<close> return;
  \<^item> \<open>entropy\<close>: what the successive calls of \<open>rand.Read\<close> do, fail (\<open>None\<close>) or
    deliver a stream of bytes of which the caller's buffer takes a prefix;
  \<^item> \<open>idgen\<close>: what the successive calls of \<open>sessionIDGen.Generate()\<close> return (the
    generator is declared outside the files at hand);
  \<^item> \<open>dbfail\<close>: whether the successive calls into \<open>database/sql\<close> (begin, query, exec,
    commit) fail for a reason of the driver's;
  \<^item> \<open>bcrypt_compare\<close>, \<open>bcrypt_generate\<close>: the password hasher.
\<close>

record world =
  clock :: "nat \<Rightarrow> int64"
  ticks :: nat
  entropy :: "nat \<Rightarrow> (nat \<Rightarrow> byte) option"
  draws :: nat
  idgen :: "nat \<Rightarrow> int64"
  ids :: nat
  dbfail :: "nat \<Rightarrow> bool"
  dbops :: nat
  bcrypt_compare :: "byte list \<Rightarrow> string \<Rightarrow> bool"
  bcrypt_generate :: "string \<Rightarrow> byte list option"

definition time_Now :: "world \<Rightarrow> int64 \<times> world" where
  "time_Now w = (clock w (ticks w), w\<lparr>ticks := Suc (ticks w)\<rparr>)"

definition rand_Read :: "nat \<Rightarrow> world \<Rightarrow> (error + byte list) \<times> world" where
  "rand_Read n w =
     (case entropy w (draws w) of
        None \<Rightarrow> (Inl ErrEntropy, w\<lparr>draws := Suc (draws w)\<rparr>)
      | Some f \<Rightarrow> (Inr (map f [0..<n]), w\<lparr>draws := Suc (draws w)\<rparr>))"

definition sessionIDGen_Generate :: "world \<Rightarrow> int64 \<times> world" where
  "sessionIDGen_Generate w = (idgen w (ids w), w\<lparr>ids := Suc (ids w)\<rparr>)"

definition db_call :: "world \<Rightarrow> bool \<times> world" where
  "db_call w = (dbfail w (dbops w), w\<lparr>dbops := Suc (dbops w)\<rparr>)"

section \<open>The store\<close>

record User =
  user_name :: string
  user_passhash :: "byte list"
  user_permission :: nat

record Invite =
  invite_token :: string
  invite_remaining :: int

record tables =
  sessions :: "Session list"
  users :: "User list"
  tokens :: "Invite list"

text \<open>\<open>SELECT * FROM sessions WHERE authtoken = ?\<close>, read by \<open>QueryRowx(...).StructScan\<close>:
  the first matching row, or \<open>sql.ErrNoRows\<close>.\<close>

definition select_session_by_authtoken ::
  "tables \<Rightarrow> string \<Rightarrow> world \<Rightarrow> (error + Session) \<times> world" where
  "select_session_by_authtoken tx token w =
     (case db_call w of
        (True, w') \<Rightarrow> (Inl ErrDriver, w')
      | (False, w') \<Rightarrow>
          (case find (\<lambda>r. AuthToken r = token) (sessions tx) of
             None \<Rightarrow> (Inl ErrNoRows, w')
           | Some s \<Rightarrow> (Inr s, w')))"

text \<open>\<open>UPDATE sessions SET deadline = ? WHERE authtoken = ?\<close>. An \<open>Exec\<close> returns the
  number of rows it affected, or the driver's error.\<close>

definition update_deadline_by_authtoken ::
  "tables \<Rightarrow> int64 \<Rightarrow> string \<Rightarrow> world \<Rightarrow> (error + nat) \<times> tables \<times> world" where
  "update_deadline_by_authtoken tx dl token w =
     (case db_call w of
        (True, w') \<Rightarrow> (Inl ErrDriver, tx, w')
      | (False, w') \<Rightarrow>
          (Inr (length (filter (\<lambda>r. AuthToken r = token) (sessions tx))),
           tx\<lparr>sessions := map (\<lambda>r. if AuthToken r = token then r\<lparr>Deadline := dl\<rparr> else r)
                              (sessions tx)\<rparr>,
           w'))"

section \<open>Looking a session up and renewing it\<close>

definition QuerySession ::
  "tables \<Rightarrow> string \<Rightarrow> int64 \<Rightarrow> world \<Rightarrow> (error + Session) \<times> tables \<times> world" where
  "QuerySession tx token renewTTL w =
     (case select_session_by_authtoken tx token w of
        (Inl err, w1) \<Rightarrow>
          if errors_Is err ErrNoRows then (Inl ErrSessionExpired, tx, w1)
          else (Inl (Wrap err ''Failed to scan session''), tx, w1)
      | (Inr s, w1) \<Rightarrow>
          (case time_Now w1 of (now, w2) \<Rightarrow>
             if Deadline s <s now then (Inl ErrSessionExpired, tx, w2)
             else
               (let now' = now + renewTTL;
                    s' = s\<lparr>Deadline := now'\<rparr>
                in case update_deadline_by_authtoken tx (Deadline s') (AuthToken s') w2 of
                     (Inl err, tx', w3) \<Rightarrow> (Inl (Wrap err ''Failed to renew token''), tx', w3)
                   | (Inr _, tx', w3) \<Rightarrow> (Inr s', tx', w3))))"

section \<open>The token generator\<close>

text \<open>
  \<open>base64.RawURLEncoding.EncodeToString\<close> of the Go standard library: three bytes make
  a 24-bit value that is cut into four 6-bit indices of the URL alphabet; a rest of one
  byte gives two characters, a rest of two bytes three, and no padding is written.
\<close>

definition encodeURL :: string where
  "encodeURL = ''ABCDEFGHIJKLMNOPQRSTUVWXYZabcdefghijklmnopqrstuvwxyz0123456789-_''"

definition enc6 :: "64 word \<Rightarrow> char" where
  "enc6 v = encodeURL ! unat (and v 0x3F)"

fun EncodeToString :: "byte list \<Rightarrow> string" where
  "EncodeToString (a # b # c # rest) =
     (let val = or (or (push_bit 16 (ucast a)) (push_bit 8 (ucast b))) (ucast c)
      in enc6 (drop_bit 18 val) # enc6 (drop_bit 12 val) # enc6 (drop_bit 6 val) # enc6 val
           # EncodeToString rest)"
| "EncodeToString [a, b] =
     (let val = or (push_bit 16 (ucast a)) (push_bit 8 (ucast b))
      in [enc6 (drop_bit 18 val), enc6 (drop_bit 12 val), enc6 (drop_bit 6 val)])"
| "EncodeToString [a] =
     (let val = push_bit 16 (ucast a)
      in [enc6 (drop_bit 18 val), enc6 (drop_bit 12 val)])"
| "EncodeToString [] = []"

definition randToken :: "world \<Rightarrow> (error + string) \<times> world" where
  "randToken w =
     (case rand_Read 32 w of
        (Inl err, w') \<Rightarrow> (Inl (Wrap err ''Failed to generate randomness''), w')
      | (Inr token, w') \<Rightarrow> (Inr (EncodeToString token), w'))"

section \<open>Creating a session\<close>

definition NewSession ::
  "string \<Rightarrow> string \<Rightarrow> int64 \<Rightarrow> world \<Rightarrow> (error + Session) \<times> world" where
  "NewSession username userAgent ttl w =
     (case randToken w of
        (Inl err, w1) \<Rightarrow> (Inl (Wrap err ''Failed to generate a token''), w1)
      | (Inr t, w1) \<Rightarrow>
          (case sessionIDGen_Generate w1 of (i, w2) \<Rightarrow>
             (case time_Now w2 of (now, w3) \<Rightarrow>
                (Inr \<lparr>ID = i, Username = username, AuthToken = t,
                      Deadline = now + ttl, UserAgent = userAgent\<rparr>, w3))))"

text \<open>
  \<open>INSERT INTO sessions VALUES (?, ?, ?, ?, ?)\<close>.

  Modelled from the spec: the schema of the \<open>sessions\<close> table is declared outside the
  files at hand; the persisted schema has \<open>id\<close> and \<open>authtoken\<close> unique, and an insert
  that collides on either is rejected, not overwritten.
\<close>

definition insert_into_sessions ::
  "tables \<Rightarrow> Session \<Rightarrow> world \<Rightarrow> (error + nat) \<times> tables \<times> world" where
  "insert_into_sessions tx s w =
     (case db_call w of
        (True, w') \<Rightarrow> (Inl ErrDriver, tx, w')
      | (False, w') \<Rightarrow>
          if list_ex (\<lambda>r. ID r = ID s \<or> AuthToken r = AuthToken s) (sessions tx)
          then (Inl ErrConstraint, tx, w')
          else (Inr 1, tx\<lparr>sessions := sessions tx @ [s]\<rparr>, w'))"

text \<open>\<open>DELETE FROM sessions WHERE deadline < ?\<close>.\<close>

definition delete_sessions_deadline_before ::
  "tables \<Rightarrow> int64 \<Rightarrow> world \<Rightarrow> (error + nat) \<times> tables \<times> world" where
  "delete_sessions_deadline_before tx t w =
     (case db_call w of
        (True, w') \<Rightarrow> (Inl ErrDriver, tx, w')
      | (False, w') \<Rightarrow>
          (Inr (length (filter (\<lambda>r. Deadline r <s t) (sessions tx))),
           tx\<lparr>sessions := filter (\<lambda>r. \<not> Deadline r <s t) (sessions tx)\<rparr>,
           w'))"

text \<open>The parameter \<open>now\<close> is not used by the source: the statement's argument is a
  fresh \<open>time.Now().UnixNano()\<close>.\<close>

definition cleanupSession ::
  "tables \<Rightarrow> int64 \<Rightarrow> world \<Rightarrow> error option \<times> tables \<times> world" where
  "cleanupSession tx now w =
     (case time_Now w of (t, w1) \<Rightarrow>
        (case delete_sessions_deadline_before tx t w1 of
           (Inl err, tx', w2) \<Rightarrow>
             (Some (Wrap err ''Faield to cleanup expired sessions''), tx', w2)
         | (Inr _, tx', w2) \<Rightarrow> (None, tx', w2)))"

text \<open>The method \<open>(s *Session) insert\<close>.\<close>

definition Session_insert ::
  "Session \<Rightarrow> tables \<Rightarrow> world \<Rightarrow> error option \<times> tables \<times> world" where
  "Session_insert s tx w =
     (case insert_into_sessions tx s w of
        (Inl err, tx1, w1) \<Rightarrow> (Some (Wrap err ''Failed to save session''), tx1, w1)
      | (Inr _, tx1, w1) \<Rightarrow>
          (case time_Now w1 of (now, w2) \<Rightarrow> cleanupSession tx1 now w2))"

section \<open>Transactions\<close>

record Config =
  tokenLifespan :: int64

record Database =
  DB :: tables
  Conf :: Config

text \<open>
  A transaction works on a copy of the tables; \<open>Commit\<close> makes the copy the database,
  and the deferred \<open>Rollback\<close> of a transaction that was not committed drops it. The
  field \<open>Config\<close> of \<open>Database\<close> is written \<open>Conf\<close>, since the record of its type has
  the name.
\<close>

definition BeginTx :: "Database \<Rightarrow> world \<Rightarrow> (error + tables) \<times> world" where
  "BeginTx d w =
     (case db_call w of
        (True, w') \<Rightarrow> (Inl ErrDriver, w')
      | (False, w') \<Rightarrow> (Inr (DB d), w'))"

definition Commit :: "Database \<Rightarrow> tables \<Rightarrow> world \<Rightarrow> error option \<times> Database \<times> world" where
  "Commit d tx w =
     (case db_call w of
        (True, w') \<Rightarrow> (Some ErrDriver, d, w')
      | (False, w') \<Rightarrow> (None, d\<lparr>DB := tx\<rparr>, w'))"

section \<open>Signing in\<close>

text \<open>\<open>SELECT passhash FROM users WHERE username = ?\<close>, read by \<open>QueryRow(...).Scan\<close>.\<close>

definition select_passhash_by_username ::
  "tables \<Rightarrow> string \<Rightarrow> world \<Rightarrow> (error + byte list) \<times> world" where
  "select_passhash_by_username tx user w =
     (case db_call w of
        (True, w') \<Rightarrow> (Inl ErrDriver, w')
      | (False, w') \<Rightarrow>
          (case find (\<lambda>u. user_name u = user) (users tx) of
             None \<Rightarrow> (Inl ErrNoRows, w')
           | Some u \<Rightarrow> (Inr (user_passhash u), w')))"

text \<open>
  Modelled from the spec: \<open>VerifyPassword\<close> is defined outside the files at hand. It
  verifies the password against the stored hash with the salted comparison of the hasher
  and reports a failed verification as \<open>InvalidPassword\<close>.
\<close>

definition VerifyPassword :: "byte list \<Rightarrow> string \<Rightarrow> world \<Rightarrow> error option" where
  "VerifyPassword passhash pass w =
     (if bcrypt_compare w passhash pass then None else Some ErrInvalidPassword)"

text \<open>
  The source returns a pair of a session pointer and an error; the model returns the error
  alone when there is one. \<open>ctx\<close> is passed on to \<open>BeginTx\<close> only.
\<close>

definition Signin ::
  "Database \<Rightarrow> string \<Rightarrow> string \<Rightarrow> string \<Rightarrow> world \<Rightarrow> (error + Session) \<times> Database \<times> world" where
  "Signin d user pass UA w =
     (case BeginTx d w of
        (Inl err, w1) \<Rightarrow> (Inl (Wrap err ''Failed to begin transaction''), d, w1)
      | (Inr t, w1) \<Rightarrow>
     (case select_passhash_by_username t user w1 of
        (Inl err, w2) \<Rightarrow>
          if errors_Is err ErrNoRows then (Inl ErrInvalidPassword, d, w2)
          else (Inl (Wrap err ''Failed to scan for password''), d, w2)
      | (Inr passhash, w2) \<Rightarrow>
     (case VerifyPassword passhash pass w2 of
        Some err \<Rightarrow> (Inl err, d, w2)
      | None \<Rightarrow>
     (case NewSession user UA (tokenLifespan (Conf d)) w2 of
        (Inl err, w3) \<Rightarrow> (Inl err, d, w3)
      | (Inr s, w3) \<Rightarrow>
     (case Session_insert s t w3 of
        (Some err, t1, w4) \<Rightarrow> (Inl err, d, w4)
      | (None, t1, w4) \<Rightarrow>
     (case Commit d t1 w4 of
        (Some err, d', w5) \<Rightarrow> (Inl err, d', w5)
      | (None, d', w5) \<Rightarrow> (Inr s, d', w5)))))))"

section \<open>Signing up\<close>

text \<open>
  Modelled from the spec: \<open>useToken\<close> is defined outside the files at hand. It consumes
  the invite token (one of its remaining uses) and fails with \<open>InvalidToken\<close> if the token
  is unknown or already exhausted. The spec also names expired invite tokens but gives them
  no expiry field; an expired token is one without a use left here.
\<close>

definition useToken :: "tables \<Rightarrow> string \<Rightarrow> world \<Rightarrow> error option \<times> tables \<times> world" where
  "useToken tx token w =
     (case db_call w of
        (True, w') \<Rightarrow> (Some ErrDriver, tx, w')
      | (False, w') \<Rightarrow>
          if list_ex (\<lambda>i. invite_token i = token \<and> 0 < invite_remaining i) (tokens tx)
          then (None,
                tx\<lparr>tokens := map (\<lambda>i. if invite_token i = token \<and> 0 < invite_remaining i
                                         then i\<lparr>invite_remaining := invite_remaining i - 1\<rparr>
                                         else i) (tokens tx)\<rparr>,
                w')
          else (Some ErrInvalidToken, tx, w'))"

text \<open>
  Modelled from the spec: \<open>NewUser\<close>, \<open>PermissionNormal\<close> and the method
  \<open>(u *User) insert\<close> are defined outside the files at hand. The user record is created
  with the default permission tier and the hash of the password; its insertion fails with
  \<open>UsernameTaken\<close> when the name is in use. The number that stands for the tier is of no
  consequence below.
\<close>

definition PermissionNormal :: nat where
  "PermissionNormal = 1"

definition NewUser :: "string \<Rightarrow> string \<Rightarrow> nat \<Rightarrow> world \<Rightarrow> error + User" where
  "NewUser user pass perm w =
     (case bcrypt_generate w pass of
        None \<Rightarrow> Inl ErrBcrypt
      | Some h \<Rightarrow> Inr \<lparr>user_name = user, user_passhash = h, user_permission = perm\<rparr>)"

definition User_insert :: "User \<Rightarrow> tables \<Rightarrow> world \<Rightarrow> error option \<times> tables \<times> world" where
  "User_insert u tx w =
     (case db_call w of
        (True, w') \<Rightarrow> (Some ErrDriver, tx, w')
      | (False, w') \<Rightarrow>
          if list_ex (\<lambda>r. user_name r = user_name u) (users tx)
          then (Some ErrUsernameTaken, tx, w')
          else (None, tx\<lparr>users := users tx @ [u]\<rparr>, w'))"

definition Signup ::
  "Database \<Rightarrow> string \<Rightarrow> string \<Rightarrow> string \<Rightarrow> string \<Rightarrow> world
     \<Rightarrow> (error + Session) \<times> Database \<times> world" where
  "Signup d user pass token UA w =
     (case BeginTx d w of
        (Inl err, w1) \<Rightarrow> (Inl (Wrap err ''Failed to begin transaction''), d, w1)
      | (Inr t, w1) \<Rightarrow>
     (case useToken t token w1 of
        (Some err, t1, w2) \<Rightarrow> (Inl err, d, w2)
      | (None, t1, w2) \<Rightarrow>
     (case NewUser user pass PermissionNormal w2 of
        Inl err \<Rightarrow> (Inl err, d, w2)
      | Inr u \<Rightarrow>
     (case User_insert u t1 w2 of
        (Some err, t2, w3) \<Rightarrow> (Inl err, d, w3)
      | (None, t2, w3) \<Rightarrow>
     (case NewSession user UA (tokenLifespan (Conf d)) w3 of
        (Inl err, w4) \<Rightarrow> (Inl err, d, w4)
      | (Inr s, w4) \<Rightarrow>
     (case Session_insert s t2 w4 of
        (Some err, t3, w5) \<Rightarrow> (Inl err, d, w5)
      | (None, t3, w5) \<Rightarrow>
     (case Commit d t3 w5 of
        (Some err, d', w6) \<Rightarrow> (Inl err, d', w6)
      | (None, d', w6) \<Rightarrow> (Inr s, d', w6))))))))"

section \<open>The session-scoped transaction\<close>

text \<open>\<open>type Transaction\<close>: an open transaction together with the session that was
  resolved for the request.\<close>

record Transaction =
  Tx :: tables
  session :: Session

text \<open>\<open>DELETE FROM sessions WHERE id = ? AND username = ?\<close>.\<close>

definition delete_sessions_by_id_username ::
  "int64 \<Rightarrow> string \<Rightarrow> tables \<Rightarrow> world \<Rightarrow> (error + nat) \<times> tables \<times> world" where
  "delete_sessions_by_id_username i u tx w =
     (case db_call w of
        (True, w') \<Rightarrow> (Inl ErrDriver, tx, w')
      | (False, w') \<Rightarrow>
          (Inr (length (filter (\<lambda>r. ID r = i \<and> Username r = u) (sessions tx))),
           tx\<lparr>sessions := filter (\<lambda>r. \<not> (ID r = i \<and> Username r = u)) (sessions tx)\<rparr>,
           w'))"

text \<open>
  Modelled from the spec: the method \<open>execChanged\<close> is defined outside the files at hand.
  It executes the statement in the transaction and reports whether at least one row was
  affected.
\<close>

definition execChanged ::
  "Transaction \<Rightarrow> (tables \<Rightarrow> world \<Rightarrow> (error + nat) \<times> tables \<times> world) \<Rightarrow> world
     \<Rightarrow> (error + bool) \<times> Transaction \<times> world" where
  "execChanged d stmt w =
     (case stmt (Tx d) w of
        (Inl err, tx', w') \<Rightarrow> (Inl err, d\<lparr>Tx := tx'\<rparr>, w')
      | (Inr n, tx', w') \<Rightarrow> (Inr (0 < n), d\<lparr>Tx := tx'\<rparr>, w'))"

definition DeleteSessionID ::
  "Transaction \<Rightarrow> int64 \<Rightarrow> world \<Rightarrow> error option \<times> Transaction \<times> world" where
  "DeleteSessionID d i w =
     (case execChanged d (delete_sessions_by_id_username i (Username (session d))) w of
        (Inl err, d', w') \<Rightarrow> (Some (Wrap err ''Failed to delete token with ID''), d', w')
      | (Inr c, d', w') \<Rightarrow>
          if \<not> c then (Some ErrSessionNotFound, d', w') else (None, d', w'))"


section \<open>Sample data\<close>

text \<open>A world whose clock advances by ten nanoseconds a reading and in which nothing
  fails, a store with a valid and an expired session, two users and two invite tokens (one
  of them used up), and the sessions that the examples create.\<close>

definition sample_bytes :: "nat \<Rightarrow> byte" where
  "sample_bytes i = of_nat (7 * i)"

definition world0 :: world where
  "world0 =
     \<lparr>clock = (\<lambda>n. 1000 + 10 * of_nat n), ticks = 0,
      entropy = (\<lambda>n. Some sample_bytes), draws = 0,
      idgen = (\<lambda>n. 500 + of_nat n), ids = 0,
      dbfail = (\<lambda>n. False), dbops = 0,
      bcrypt_compare = (\<lambda>h p. h = map (\<lambda>c. of_nat (of_char c)) p),
      bcrypt_generate = (\<lambda>p. Some (map (\<lambda>c. of_nat (of_char c)) p))\<rparr>"

definition alice_session :: Session where
  "alice_session =
     \<lparr>ID = 1, Username = ''alice'', AuthToken = ''tokA'', Deadline = 2000, UserAgent = ''ua1''\<rparr>"

definition bob_session :: Session where
  "bob_session =
     \<lparr>ID = 2, Username = ''bob'', AuthToken = ''tokB'', Deadline = 900, UserAgent = ''ua2''\<rparr>"

definition tables0 :: tables where
  "tables0 =
     \<lparr>sessions = [alice_session, bob_session],
      users = [\<lparr>user_name = ''alice'', user_passhash = [112, 119], user_permission = 1\<rparr>,
               \<lparr>user_name = ''bob'', user_passhash = [113], user_permission = 1\<rparr>],
      tokens = [\<lparr>invite_token = ''inv1'', invite_remaining = 1\<rparr>,
                \<lparr>invite_token = ''inv0'', invite_remaining = 0\<rparr>]\<rparr>"

definition database0 :: Database where
  "database0 = \<lparr>DB = tables0, Conf = \<lparr>tokenLifespan = 0\<rparr>\<rparr>"

definition carol_session :: Session where
  "carol_session =
     \<lparr>ID = 3, Username = ''carol'', AuthToken = ''tokC'', Deadline = 3000, UserAgent = ''ua3''\<rparr>"


definition fresh_session :: Session where
  "fresh_session =
     \<lparr>ID = 500, Username = ''alice'',
      AuthToken = ''AAcOFRwjKjE4P0ZNVFtiaXB3foWMk5qhqK-2vcTL0tk'',
      Deadline = 4600, UserAgent = ''ua''\<rparr>"

definition carol_signup_session :: Session where
  "carol_signup_session =
     \<lparr>ID = 500, Username = ''carol'',
      AuthToken = ''AAcOFRwjKjE4P0ZNVFtiaXB3foWMk5qhqK-2vcTL0tk'',
      Deadline = 1000, UserAgent = ''ua''\<rparr>"

section \<open>Properties\<close>

lemma select_unknown:
  assumes "\<not> dbfail w (dbops w)" and "find (\<lambda>r. AuthToken r = token) (sessions tx) = None"
  shows "select_session_by_authtoken tx token w = (Inl ErrNoRows, w\<lparr>dbops := Suc (dbops w)\<rparr>)"
  using assms by (simp add: select_session_by_authtoken_def db_call_def)

lemma select_known:
  assumes "\<not> dbfail w (dbops w)" and "find (\<lambda>r. AuthToken r = token) (sessions tx) = Some s"
  shows "select_session_by_authtoken tx token w = (Inr s, w\<lparr>dbops := Suc (dbops w)\<rparr>)"
  using assms by (simp add: select_session_by_authtoken_def db_call_def)

lemma select_fault:
  assumes "dbfail w (dbops w)"
  shows "select_session_by_authtoken tx token w = (Inl ErrDriver, w\<lparr>dbops := Suc (dbops w)\<rparr>)"
  using assms by (simp add: select_session_by_authtoken_def db_call_def)

lemma find_by_key_distinct:
  "distinct (map f xs) \<Longrightarrow> s \<in> set xs \<Longrightarrow> find (\<lambda>r. f r = f s) xs = Some s"
  by (induction xs) (auto simp: image_iff)

lemma find_None_iff_ball: "find P xs = None \<longleftrightarrow> (\<forall>x\<in>set xs. \<not> P x)"
  by (auto simp: find_None_iff)

lemma err_kinds_differ: "ErrSessionExpired \<noteq> ErrSessionNotFound"
  by (simp add: ErrSessionExpired_def ErrSessionNotFound_def)

lemma QuerySession_unknown:
  assumes "\<not> dbfail w (dbops w)" and "find (\<lambda>r. AuthToken r = token) (sessions tx) = None"
  shows "QuerySession tx token renewTTL w = (Inl ErrSessionExpired, tx, w\<lparr>dbops := Suc (dbops w)\<rparr>)"
  using assms by (simp add: QuerySession_def select_unknown)

lemma QuerySession_fault:
  assumes "dbfail w (dbops w)"
  shows "QuerySession tx token renewTTL w =
           (Inl (Wrap ErrDriver ''Failed to scan session''), tx, w\<lparr>dbops := Suc (dbops w)\<rparr>)"
  using assms by (simp add: QuerySession_def select_fault)

lemma QuerySession_expired:
  assumes "\<not> dbfail w (dbops w)" and "find (\<lambda>r. AuthToken r = token) (sessions tx) = Some s"
    and "Deadline s <s clock w (ticks w)"
  shows "QuerySession tx token renewTTL w =
           (Inl ErrSessionExpired, tx, w\<lparr>ticks := Suc (ticks w), dbops := Suc (dbops w)\<rparr>)"
  using assms by (simp add: QuerySession_def select_known time_Now_def)

lemma QuerySession_renew_fault:
  assumes "\<not> dbfail w (dbops w)" and "find (\<lambda>r. AuthToken r = token) (sessions tx) = Some s"
    and "\<not> Deadline s <s clock w (ticks w)" and "dbfail w (Suc (dbops w))"
  shows "QuerySession tx token renewTTL w =
           (Inl (Wrap ErrDriver ''Failed to renew token''), tx,
            w\<lparr>ticks := Suc (ticks w), dbops := Suc (Suc (dbops w))\<rparr>)"
  using assms
  by (simp add: QuerySession_def select_known time_Now_def update_deadline_by_authtoken_def
      db_call_def)

lemma QuerySession_valid:
  assumes "\<not> dbfail w (dbops w)" and "find (\<lambda>r. AuthToken r = token) (sessions tx) = Some s"
    and "\<not> Deadline s <s clock w (ticks w)" and "\<not> dbfail w (Suc (dbops w))"
  shows "QuerySession tx token renewTTL w =
           (Inr (s\<lparr>Deadline := clock w (ticks w) + renewTTL\<rparr>),
            tx\<lparr>sessions := map (\<lambda>r. if AuthToken r = token
                                      then r\<lparr>Deadline := clock w (ticks w) + renewTTL\<rparr> else r)
                                (sessions tx)\<rparr>,
            w\<lparr>ticks := Suc (ticks w), dbops := Suc (Suc (dbops w))\<rparr>)"
proof -
  from assms(2) have "AuthToken s = token"
    by (auto simp: find_Some_iff)
  with assms show ?thesis
    by (simp add: QuerySession_def select_known time_Now_def update_deadline_by_authtoken_def
        db_call_def Let_def)
qed

lemma find_map_update:
  assumes "find (\<lambda>r. AuthToken r = token) xs = Some s"
  shows "find (\<lambda>r. AuthToken r = token)
           (map (\<lambda>r. if AuthToken r = token then r\<lparr>Deadline := d\<rparr> else r) xs)
         = Some (s\<lparr>Deadline := d\<rparr>)"
  using assms by (induction xs) (auto split: if_splits)

text \<open>
  Claim C2. A token that matches no stored row: when the query itself does not fail,
  \<open>QuerySession\<close> fails with \<open>ErrSessionExpired\<close> and leaves the store as it is; in
  every case it fails, and never with \<open>ErrSessionNotFound\<close>; and the error is the very
  one returned for a stored session whose deadline has passed.
\<close>

theorem QuerySession_unknown_token:
  assumes "\<forall>r\<in>set (sessions tx). AuthToken r \<noteq> token"
  shows "(\<not> dbfail w (dbops w) \<longrightarrow>
            QuerySession tx token renewTTL w =
              (Inl ErrSessionExpired, tx, w\<lparr>dbops := Suc (dbops w)\<rparr>))
       \<and> isl (fst (QuerySession tx token renewTTL w))
       \<and> fst (QuerySession tx token renewTTL w) \<noteq> Inl ErrSessionNotFound
       \<and> (\<forall>tx2 s w2 renewTTL2.
            \<not> dbfail w (dbops w) \<and> \<not> dbfail w2 (dbops w2) \<and>
            find (\<lambda>r. AuthToken r = AuthToken s) (sessions tx2) = Some s \<and>
            Deadline s <s clock w2 (ticks w2) \<longrightarrow>
            fst (QuerySession tx token renewTTL w) =
            fst (QuerySession tx2 (AuthToken s) renewTTL2 w2))"
proof -
  from assms have none: "find (\<lambda>r. AuthToken r = token) (sessions tx) = None"
    by (simp add: find_None_iff_ball)
  show ?thesis
  proof (cases "dbfail w (dbops w)")
    case True
    then show ?thesis
      by (simp add: QuerySession_fault ErrSessionNotFound_def)
  next
    case False
    then show ?thesis
      using none by (simp add: QuerySession_unknown QuerySession_expired err_kinds_differ)
  qed
qed

theorem QuerySession_unknown_token_witness:
  "''forged'' \<notin> AuthToken ` set (sessions tables0)
   \<and> fst (QuerySession tables0 ''forged'' 50 world0) = Inl ErrSessionExpired
   \<and> fst (QuerySession tables0 ''forged'' 50 world0) =
       fst (QuerySession tables0 ''tokB'' 50 world0)"
proof -
  have h: "\<forall>r\<in>set (sessions tables0). AuthToken r \<noteq> ''forged''"
    by (simp add: tables0_def alice_session_def bob_session_def)
  have f: "find (\<lambda>r. AuthToken r = AuthToken bob_session) (sessions tables0) = Some bob_session"
    by (simp add: tables0_def alice_session_def bob_session_def)
  have e: "Deadline bob_session <s clock world0 (ticks world0)"
    by (simp add: bob_session_def world0_def)
  have n: "\<not> dbfail world0 (dbops world0)"
    by (simp add: world0_def)
  from QuerySession_unknown_token [OF h, of world0 50] n f e
  have "fst (QuerySession tables0 ''forged'' 50 world0) = Inl ErrSessionExpired
      \<and> fst (QuerySession tables0 ''forged'' 50 world0) =
          fst (QuerySession tables0 (AuthToken bob_session) 50 world0)"
    by fastforce
  with h show ?thesis by (auto simp: bob_session_def)
qed

lemma Session_insert_result:
  "Session_insert s tx w =
     (if dbfail w (dbops w)
      then (Some (Wrap ErrDriver ''Failed to save session''), tx, w\<lparr>dbops := Suc (dbops w)\<rparr>)
      else if list_ex (\<lambda>r. ID r = ID s \<or> AuthToken r = AuthToken s) (sessions tx)
      then (Some (Wrap ErrConstraint ''Failed to save session''), tx,
            w\<lparr>dbops := Suc (dbops w)\<rparr>)
      else if dbfail w (Suc (dbops w))
      then (Some (Wrap ErrDriver ''Faield to cleanup expired sessions''),
            tx\<lparr>sessions := sessions tx @ [s]\<rparr>,
            w\<lparr>ticks := Suc (Suc (ticks w)), dbops := Suc (Suc (dbops w))\<rparr>)
      else (None,
            tx\<lparr>sessions := filter (\<lambda>r. \<not> Deadline r <s clock w (Suc (ticks w)))
                                   (sessions tx @ [s])\<rparr>,
            w\<lparr>ticks := Suc (Suc (ticks w)), dbops := Suc (Suc (dbops w))\<rparr>))"
  by (simp add: Session_insert_def insert_into_sessions_def cleanupSession_def
      delete_sessions_deadline_before_def time_Now_def db_call_def)

lemma Session_insert_NoneD:
  assumes "Session_insert s tx w = (None, tx', w')"
  shows "tx' = tx\<lparr>sessions := filter (\<lambda>r. \<not> Deadline r <s clock w (Suc (ticks w)))
                                   (sessions tx @ [s])\<rparr>"
    and "\<not> list_ex (\<lambda>r. ID r = ID s \<or> AuthToken r = AuthToken s) (sessions tx)"
    and "w' = w\<lparr>ticks := Suc (Suc (ticks w)), dbops := Suc (Suc (dbops w))\<rparr>"
  using assms by (auto simp: Session_insert_result split: if_splits)

text \<open>
  Claim C1. A stored session whose deadline has not passed (\<open>now \<le> deadline\<close>), resolved
  by its token: \<open>QuerySession\<close> returns the session with the deadline \<open>now + renewTTL\<close>,
  where \<open>now\<close> is the clock reading made during the resolution, and the row stored
  under the token afterwards carries that deadline. The previous deadline does not occur
  in the new one.
\<close>

theorem QuerySession_sliding_renewal:
  assumes "s \<in> set (sessions tx)" and "distinct (map AuthToken (sessions tx))"
    and "clock w (ticks w) \<le>s Deadline s"
    and "\<not> dbfail w (dbops w)" and "\<not> dbfail w (Suc (dbops w))"
  shows "fst (QuerySession tx (AuthToken s) renewTTL w) =
           Inr (s\<lparr>Deadline := clock w (ticks w) + renewTTL\<rparr>)
       \<and> find (\<lambda>r. AuthToken r = AuthToken s)
             (sessions (fst (snd (QuerySession tx (AuthToken s) renewTTL w)))) =
           Some (s\<lparr>Deadline := clock w (ticks w) + renewTTL\<rparr>)
       \<and> s\<lparr>Deadline := clock w (ticks w) + renewTTL\<rparr>
             \<in> set (sessions (fst (snd (QuerySession tx (AuthToken s) renewTTL w))))"
proof -
  let ?s' = "s\<lparr>Deadline := clock w (ticks w) + renewTTL\<rparr>"
  have sel: "find (\<lambda>r. AuthToken r = AuthToken s) (sessions tx) = Some s"
    using assms(1,2) by (simp add: find_by_key_distinct)
  have valid: "\<not> Deadline s <s clock w (ticks w)"
    using assms(3) by (simp add: signed.not_less)
  note res = QuerySession_valid [OF assms(4) sel valid assms(5), of renewTTL]
  have stored: "find (\<lambda>r. AuthToken r = AuthToken s)
                  (sessions (fst (snd (QuerySession tx (AuthToken s) renewTTL w)))) = Some ?s'"
    by (simp add: res find_map_update [OF sel])
  then have "?s' \<in> set (sessions (fst (snd (QuerySession tx (AuthToken s) renewTTL w))))"
    by (auto simp: find_Some_iff in_set_conv_nth)
  with stored show ?thesis by (simp add: res)
qed

theorem QuerySession_sliding_renewal_witness:
  "fst (QuerySession (tables0\<lparr>sessions := [alice_session\<lparr>Deadline := 3600000000000\<rparr>]\<rparr>)
          ''tokA'' 3600000000000 (world0\<lparr>clock := \<lambda>n. 1800000000000\<rparr>)) =
     Inr (alice_session\<lparr>Deadline := 5400000000000\<rparr>)
   \<and> alice_session\<lparr>Deadline := 5400000000000\<rparr>
       \<in> set (sessions (fst (snd (QuerySession
              (tables0\<lparr>sessions := [alice_session\<lparr>Deadline := 3600000000000\<rparr>]\<rparr>)
              ''tokA'' 3600000000000 (world0\<lparr>clock := \<lambda>n. 1800000000000\<rparr>)))))"
  using QuerySession_sliding_renewal
    [of "alice_session\<lparr>Deadline := 3600000000000\<rparr>"
        "tables0\<lparr>sessions := [alice_session\<lparr>Deadline := 3600000000000\<rparr>]\<rparr>"
        "world0\<lparr>clock := \<lambda>n. 1800000000000\<rparr>" 3600000000000]
  by (simp add: alice_session_def world0_def)

text \<open>
  Claim C4. For a stored session whose row the query reads, \<open>QuerySession\<close> fails with
  \<open>ErrSessionExpired\<close> exactly when \<open>now > deadline\<close>; on that failure the store is
  unchanged, so the expired row is still there; at \<open>now = deadline\<close> the session is
  resolved and renewed; and a later successful insert whose sweep reads a clock beyond
  the deadline removes the row.
\<close>

theorem QuerySession_expiry_boundary:
  assumes "s \<in> set (sessions tx)" and "distinct (map AuthToken (sessions tx))"
    and "\<not> dbfail w (dbops w)"
  shows "(fst (QuerySession tx (AuthToken s) renewTTL w) = Inl ErrSessionExpired
            \<longleftrightarrow> Deadline s <s clock w (ticks w))
       \<and> (Deadline s <s clock w (ticks w) \<longrightarrow>
            fst (snd (QuerySession tx (AuthToken s) renewTTL w)) = tx)
       \<and> (clock w (ticks w) = Deadline s \<and> \<not> dbfail w (Suc (dbops w)) \<longrightarrow>
            fst (QuerySession tx (AuthToken s) renewTTL w) =
              Inr (s\<lparr>Deadline := Deadline s + renewTTL\<rparr>))
       \<and> (\<forall>s2 w2 tx3 w3.
            Deadline s <s clock w2 (Suc (ticks w2)) \<and>
            Session_insert s2 tx w2 = (None, tx3, w3) \<longrightarrow> s \<notin> set (sessions tx3))"
proof -
  have sel: "find (\<lambda>r. AuthToken r = AuthToken s) (sessions tx) = Some s"
    using assms(1,2) by (simp add: find_by_key_distinct)
  have sweep: "s \<notin> set (sessions tx3)"
    if "Deadline s <s clock w2 (Suc (ticks w2))" and "Session_insert s2 tx w2 = (None, tx3, w3)"
    for s2 w2 tx3 w3
    using that Session_insert_NoneD(1) [OF that(2)] by auto
  show ?thesis
  proof (cases "Deadline s <s clock w (ticks w)")
    case True
    then show ?thesis
      using sweep by (auto simp: QuerySession_expired [OF assms(3) sel True])
  next
    case False
    show ?thesis
    proof (cases "dbfail w (Suc (dbops w))")
      case True
      then show ?thesis
        using False sweep
        by (auto simp: QuerySession_renew_fault [OF assms(3) sel False True] ErrSessionExpired_def)
    next
      case nofault: False
      then show ?thesis
        using False sweep
        by (auto simp: QuerySession_valid [OF assms(3) sel False nofault])
    qed
  qed
qed

theorem QuerySession_expiry_boundary_witness:
  "fst (QuerySession tables0 ''tokB'' 50 world0) = Inl ErrSessionExpired
   \<and> fst (snd (QuerySession tables0 ''tokB'' 50 world0)) = tables0
   \<and> fst (QuerySession tables0 ''tokA'' 50 (world0\<lparr>clock := \<lambda>n. 2000\<rparr>)) =
       Inr (alice_session\<lparr>Deadline := 2050\<rparr>)
   \<and> fst (QuerySession tables0 ''tokA'' 50 (world0\<lparr>clock := \<lambda>n. 2001\<rparr>)) =
       Inl ErrSessionExpired
   \<and> bob_session \<notin> set (sessions (fst (snd (Session_insert carol_session tables0 world0))))"
proof -
  have d: "distinct (map AuthToken (sessions tables0))"
    by (simp add: tables0_def alice_session_def bob_session_def)
  have a: "alice_session \<in> set (sessions tables0)" and b: "bob_session \<in> set (sessions tables0)"
    by (simp_all add: tables0_def)
  have n: "\<not> dbfail world0 (dbops world0)"
    by (simp add: world0_def)
  have "fst (QuerySession tables0 (AuthToken bob_session) 50 world0) = Inl ErrSessionExpired
      \<and> fst (snd (QuerySession tables0 (AuthToken bob_session) 50 world0)) = tables0"
    using QuerySession_expiry_boundary [OF b d, of world0 50]
    by (simp add: world0_def bob_session_def)
  moreover
  have "fst (QuerySession tables0 (AuthToken alice_session) 50 (world0\<lparr>clock := \<lambda>n. 2000\<rparr>)) =
          Inr (alice_session\<lparr>Deadline := 2050\<rparr>)"
    using QuerySession_expiry_boundary [OF a d, of "world0\<lparr>clock := \<lambda>n. 2000\<rparr>" 50]
    by (simp add: world0_def alice_session_def)
  moreover
  have "fst (QuerySession tables0 (AuthToken alice_session) 50 (world0\<lparr>clock := \<lambda>n. 2001\<rparr>)) =
          Inl ErrSessionExpired"
    using QuerySession_expiry_boundary [OF a d, of "world0\<lparr>clock := \<lambda>n. 2001\<rparr>" 50]
    by (simp add: world0_def alice_session_def)
  moreover
  have "bob_session \<notin> set (sessions (fst (snd (Session_insert carol_session tables0 world0))))"
  proof -
    have "fst (Session_insert carol_session tables0 world0) = None"
      by (simp add: Session_insert_result world0_def tables0_def alice_session_def
          bob_session_def carol_session_def)
    then have ins: "Session_insert carol_session tables0 world0 =
        (None, fst (snd (Session_insert carol_session tables0 world0)),
         snd (snd (Session_insert carol_session tables0 world0)))"
      by (metis prod.collapse)
    have late: "Deadline bob_session <s clock world0 (Suc (ticks world0))"
      by (simp add: world0_def bob_session_def)
    from QuerySession_expiry_boundary [OF b d n, of 50] late ins
    show ?thesis by blast
  qed
  ultimately show ?thesis
    by (simp add: alice_session_def bob_session_def)
qed

lemma NewSession_result:
  "NewSession username userAgent ttl w =
     (case entropy w (draws w) of
        None \<Rightarrow>
          (Inl (Wrap (Wrap ErrEntropy ''Failed to generate randomness'')
                  ''Failed to generate a token''),
           w\<lparr>draws := Suc (draws w)\<rparr>)
      | Some f \<Rightarrow>
          (Inr \<lparr>ID = idgen w (ids w), Username = username,
                AuthToken = EncodeToString (map f [0..<32]),
                Deadline = clock w (ticks w) + ttl, UserAgent = userAgent\<rparr>,
           w\<lparr>ticks := Suc (ticks w), draws := Suc (draws w), ids := Suc (ids w)\<rparr>))"
  by (simp add: NewSession_def randToken_def rand_Read_def sessionIDGen_Generate_def
      time_Now_def split: option.splits)

lemma Signin_rollback:
  "isl (fst (Signin d user pass UA w)) \<Longrightarrow> fst (snd (Signin d user pass UA w)) = d"
  by (auto simp: Signin_def BeginTx_def Commit_def db_call_def
      split: prod.splits sum.splits option.splits if_splits bool.splits)

lemma Signin_admitted:
  assumes "\<not> dbfail w (dbops w)" and "\<not> dbfail w (Suc (dbops w))"
    and "find (\<lambda>u. user_name u = user) (users (DB d)) = Some u"
    and "bcrypt_compare w (user_passhash u) pass"
    and "entropy w (draws w) = Some f"
    and "s = \<lparr>ID = idgen w (ids w), Username = user,
              AuthToken = EncodeToString (map f [0..<32]),
              Deadline = clock w (ticks w) + tokenLifespan (Conf d), UserAgent = UA\<rparr>"
    and "w3 = w\<lparr>dbops := Suc (Suc (dbops w)), ticks := Suc (ticks w),
               draws := Suc (draws w), ids := Suc (ids w)\<rparr>"
  shows "Signin d user pass UA w =
           (case Session_insert s (DB d) w3 of
              (Some err, t1, w4) \<Rightarrow> (Inl err, d, w4)
            | (None, t1, w4) \<Rightarrow>
                (case Commit d t1 w4 of
                   (Some err, d', w5) \<Rightarrow> (Inl err, d', w5)
                 | (None, d', w5) \<Rightarrow> (Inr s, d', w5)))"
  using assms(1-5) unfolding assms(6,7)
  by (simp add: Signin_def BeginTx_def select_passhash_by_username_def VerifyPassword_def
      NewSession_result db_call_def)

lemma Signin_swept_fault:
  assumes "\<not> dbfail w (dbops w)" and "\<not> dbfail w (Suc (dbops w))"
    and "find (\<lambda>u. user_name u = user) (users (DB d)) = Some u"
    and "bcrypt_compare w (user_passhash u) pass"
    and "entropy w (draws w) = Some f"
    and "\<not> dbfail w (Suc (Suc (dbops w)))"
    and "\<not> list_ex (\<lambda>r. ID r = idgen w (ids w) \<or>
                          AuthToken r = EncodeToString (map f [0..<32])) (sessions (DB d))"
    and "dbfail w (Suc (Suc (Suc (dbops w))))"
  shows "fst (Signin d user pass UA w) =
           Inl (Wrap ErrDriver ''Faield to cleanup expired sessions'')
       \<and> fst (snd (Signin d user pass UA w)) = d"
  using assms(6-8)
  by (simp add: Signin_admitted [OF assms(1-5) refl refl] Session_insert_result)


lemma BeginTx_InrD:
  assumes "BeginTx d w = (Inr t, w1)"
  shows "t = DB d" and "w1 = w\<lparr>dbops := Suc (dbops w)\<rparr>" and "\<not> dbfail w (dbops w)"
  using assms by (auto simp: BeginTx_def db_call_def split: if_splits bool.splits)

lemma select_passhash_InrD:
  assumes "select_passhash_by_username t user w = (Inr h, w1)"
  shows "w1 = w\<lparr>dbops := Suc (dbops w)\<rparr>" and "\<not> dbfail w (dbops w)"
    and "\<exists>u. find (\<lambda>u. user_name u = user) (users t) = Some u \<and> h = user_passhash u"
  using assms
  by (auto simp: select_passhash_by_username_def db_call_def
      split: if_splits bool.splits option.splits)

lemma NewSession_InrD:
  assumes "NewSession username userAgent ttl w = (Inr s, w1)"
  shows "\<exists>f. entropy w (draws w) = Some f \<and>
           s = \<lparr>ID = idgen w (ids w), Username = username,
                 AuthToken = EncodeToString (map f [0..<32]),
                 Deadline = clock w (ticks w) + ttl, UserAgent = userAgent\<rparr>"
    and "w1 = w\<lparr>ticks := Suc (ticks w), draws := Suc (draws w), ids := Suc (ids w)\<rparr>"
  using assms by (auto simp: NewSession_result split: option.splits)

lemma Commit_NoneD:
  assumes "Commit d t w = (None, d', w1)"
  shows "d' = d\<lparr>DB := t\<rparr>" and "\<not> dbfail w (dbops w)"
  using assms by (auto simp: Commit_def db_call_def split: if_splits bool.splits)

lemma Signin_InrE:
  assumes "fst (Signin d user pass UA w) = Inr s"
  obtains t w1 h w2 w3 t1 w4 d' w5 where
    "BeginTx d w = (Inr t, w1)"
    "select_passhash_by_username t user w1 = (Inr h, w2)"
    "VerifyPassword h pass w2 = None"
    "NewSession user UA (tokenLifespan (Conf d)) w2 = (Inr s, w3)"
    "Session_insert s t w3 = (None, t1, w4)"
    "Commit d t1 w4 = (None, d', w5)"
    "Signin d user pass UA w = (Inr s, d', w5)"
  using assms
  by (auto simp: Signin_def split: prod.splits sum.splits option.splits if_splits)

text \<open>
  Claim C5. When the \<open>INSERT\<close> of \<open>(s *Session) insert\<close> has persisted the row, the
  sweep runs next, on the same transaction. If its \<open>DELETE\<close> succeeds, the rows left are
  those of the table with the new row added whose deadline is not strictly less than the
  clock reading the sweep makes: exactly the rows with \<open>deadline < now\<close> are deleted. If its
  \<open>DELETE\<close> fails, the insert returns that failure; and \<open>Signin\<close>, when that happens
  inside it, returns the failure and leaves the database as it was.
\<close>

theorem Session_insert_runs_sweep:
  assumes "\<not> dbfail w (dbops w)"
    and "\<not> list_ex (\<lambda>r. ID r = ID s \<or> AuthToken r = AuthToken s) (sessions tx)"
  shows "(\<not> dbfail w (Suc (dbops w)) \<longrightarrow>
            fst (Session_insert s tx w) = None \<and>
            fst (snd (Session_insert s tx w)) =
              tx\<lparr>sessions := filter (\<lambda>r. \<not> Deadline r <s clock w (Suc (ticks w)))
                                    (sessions tx @ [s])\<rparr> \<and>
            (\<forall>r. r \<in> set (sessions (fst (snd (Session_insert s tx w)))) \<longleftrightarrow>
                   (r \<in> set (sessions tx) \<or> r = s) \<and>
                   \<not> Deadline r <s clock w (Suc (ticks w))))
       \<and> (dbfail w (Suc (dbops w)) \<longrightarrow>
            fst (Session_insert s tx w) =
              Some (Wrap ErrDriver ''Faield to cleanup expired sessions''))
       \<and> (\<forall>d user pass UA u f w0.
            \<not> dbfail w0 (dbops w0) \<and> \<not> dbfail w0 (Suc (dbops w0)) \<and>
            find (\<lambda>u. user_name u = user) (users (DB d)) = Some u \<and>
            bcrypt_compare w0 (user_passhash u) pass \<and>
            entropy w0 (draws w0) = Some f \<and>
            \<not> dbfail w0 (Suc (Suc (dbops w0))) \<and>
            \<not> list_ex (\<lambda>r. ID r = idgen w0 (ids w0) \<or>
                              AuthToken r = EncodeToString (map f [0..<32]))
                  (sessions (DB d)) \<and>
            dbfail w0 (Suc (Suc (Suc (dbops w0)))) \<longrightarrow>
            fst (Signin d user pass UA w0) =
              Inl (Wrap ErrDriver ''Faield to cleanup expired sessions'') \<and>
            fst (snd (Signin d user pass UA w0)) = d)"
proof (intro conjI impI allI)
  assume "\<not> dbfail w (Suc (dbops w))"
  with assms show "fst (Session_insert s tx w) = None"
    and "fst (snd (Session_insert s tx w)) =
           tx\<lparr>sessions := filter (\<lambda>r. \<not> Deadline r <s clock w (Suc (ticks w)))
                                 (sessions tx @ [s])\<rparr>"
    by (simp_all add: Session_insert_result)
  then show "r \<in> set (sessions (fst (snd (Session_insert s tx w)))) \<longleftrightarrow>
               (r \<in> set (sessions tx) \<or> r = s) \<and>
               \<not> Deadline r <s clock w (Suc (ticks w))" for r
    by auto
next
  assume "dbfail w (Suc (dbops w))"
  with assms show "fst (Session_insert s tx w) =
      Some (Wrap ErrDriver ''Faield to cleanup expired sessions'')"
    by (simp add: Session_insert_result)
next
  fix d :: Database and user pass UA u f and w0 :: world
  assume a: "\<not> dbfail w0 (dbops w0) \<and> \<not> dbfail w0 (Suc (dbops w0)) \<and>
            find (\<lambda>u. user_name u = user) (users (DB d)) = Some u \<and>
            bcrypt_compare w0 (user_passhash u) pass \<and>
            entropy w0 (draws w0) = Some f \<and>
            \<not> dbfail w0 (Suc (Suc (dbops w0))) \<and>
            \<not> list_ex (\<lambda>r. ID r = idgen w0 (ids w0) \<or>
                              AuthToken r = EncodeToString (map f [0..<32]))
                  (sessions (DB d)) \<and>
            dbfail w0 (Suc (Suc (Suc (dbops w0))))"
  then show "fst (Signin d user pass UA w0) =
      Inl (Wrap ErrDriver ''Faield to cleanup expired sessions'')"
    and "fst (snd (Signin d user pass UA w0)) = d"
    using Signin_swept_fault [of w0 user d u pass f UA] by simp_all
qed

theorem Session_insert_runs_sweep_witness:
  "fst (Session_insert carol_session tables0 world0) = None
   \<and> sessions (fst (snd (Session_insert carol_session tables0 world0))) =
       [alice_session, carol_session]
   \<and> fst (Session_insert carol_session tables0 (world0\<lparr>dbfail := \<lambda>n. n = 1\<rparr>)) =
       Some (Wrap ErrDriver ''Faield to cleanup expired sessions'')
   \<and> fst (Signin database0 ''alice'' ''pw'' ''ua'' (world0\<lparr>dbfail := \<lambda>n. n = 3\<rparr>)) =
       Inl (Wrap ErrDriver ''Faield to cleanup expired sessions'')
   \<and> fst (snd (Signin database0 ''alice'' ''pw'' ''ua'' (world0\<lparr>dbfail := \<lambda>n. n = 3\<rparr>))) =
       database0"
proof -
  have c: "\<not> list_ex (\<lambda>r. ID r = ID carol_session \<or> AuthToken r = AuthToken carol_session)
             (sessions tables0)"
    by (simp add: tables0_def alice_session_def bob_session_def carol_session_def)
  have 1: "fst (Session_insert carol_session tables0 world0) = None
      \<and> sessions (fst (snd (Session_insert carol_session tables0 world0))) =
          [alice_session, carol_session]"
    using Session_insert_runs_sweep [of world0 carol_session tables0, OF _ c]
    by (simp add: world0_def tables0_def alice_session_def bob_session_def carol_session_def)
  have 2: "fst (Session_insert carol_session tables0 (world0\<lparr>dbfail := \<lambda>n. n = 1\<rparr>)) =
       Some (Wrap ErrDriver ''Faield to cleanup expired sessions'')"
    using Session_insert_runs_sweep [of "world0\<lparr>dbfail := \<lambda>n. n = 1\<rparr>" carol_session tables0, OF _ c]
    by (simp add: world0_def)
  have t: "EncodeToString (map sample_bytes [0..<32]) =
             ''AAcOFRwjKjE4P0ZNVFtiaXB3foWMk5qhqK-2vcTL0tk''"
    by code_simp
  have 3: "fst (Signin database0 ''alice'' ''pw'' ''ua'' (world0\<lparr>dbfail := \<lambda>n. n = 3\<rparr>)) =
       Inl (Wrap ErrDriver ''Faield to cleanup expired sessions'')
     \<and> fst (snd (Signin database0 ''alice'' ''pw'' ''ua'' (world0\<lparr>dbfail := \<lambda>n. n = 3\<rparr>))) =
       database0"
    using Session_insert_runs_sweep [of world0 carol_session tables0, OF _ c,
        THEN conjunct2, THEN conjunct2, rule_format,
        of "world0\<lparr>dbfail := \<lambda>n. n = 3\<rparr>" "''alice''" database0
           "\<lparr>user_name = ''alice'', user_passhash = [112, 119], user_permission = 1\<rparr>"
           "''pw''" sample_bytes "''ua''"]
    by (simp add: world0_def database0_def tables0_def alice_session_def bob_session_def t)
  from 1 2 3 show ?thesis by simp
qed









lemma find_filter_append_new:
  assumes "\<forall>x\<in>set xs. \<not> P x" and "P s" and "Q s"
  shows "find P (filter Q (xs @ [s])) = Some s"
  using assms by (induction xs) auto

text \<open>
  Claim C9. A session made by \<open>NewSession\<close> (its token from the token generator) and
  inserted with success, then looked up by its token: when the lookup reads a clock not
  earlier than the one the insert's sweep read and not later than the session's deadline,
  and the two statements of the lookup work, \<open>QuerySession\<close> returns the created session
  with only the deadline replaced: id, username, token and user agent are those of the
  created session.
\<close>

theorem session_round_trip:
  assumes "NewSession username userAgent ttl w0 = (Inr s, w1)"
    and "Session_insert s tx w1 = (None, tx1, w2)"
    and "clock w1 (Suc (ticks w1)) \<le>s clock w (ticks w)"
    and "clock w (ticks w) \<le>s Deadline s"
    and "\<not> dbfail w (dbops w)" and "\<not> dbfail w (Suc (dbops w))"
  shows "fst (QuerySession tx1 (AuthToken s) renewTTL w) =
           Inr (s\<lparr>Deadline := clock w (ticks w) + renewTTL\<rparr>)
       \<and> (\<exists>s'. fst (QuerySession tx1 (AuthToken s) renewTTL w) = Inr s' \<and>
              ID s' = ID s \<and> Username s' = Username s \<and> AuthToken s' = AuthToken s \<and>
              UserAgent s' = UserAgent s \<and> Username s' = username \<and>
              UserAgent s' = userAgent)"
proof -
  have fresh: "\<forall>r\<in>set (sessions tx). \<not> AuthToken r = AuthToken s"
    using Session_insert_NoneD(2) [OF assms(2)] by (auto simp: list_ex_iff)
  have kept: "\<not> Deadline s <s clock w1 (Suc (ticks w1))"
    using assms(3,4) by (meson signed.not_less signed.order_trans)
  have valid: "\<not> Deadline s <s clock w (ticks w)"
    using assms(4) by (simp add: signed.not_less)
  have sel: "find (\<lambda>r. AuthToken r = AuthToken s) (sessions tx1) = Some s"
  proof -
    have "find (\<lambda>r. AuthToken r = AuthToken s)
            (filter (\<lambda>r. \<not> Deadline r <s clock w1 (Suc (ticks w1))) (sessions tx @ [s])) =
          Some s"
      using fresh kept by (intro find_filter_append_new) auto
    then show ?thesis
      using Session_insert_NoneD(1) [OF assms(2)] by simp
  qed
  have fields: "Username s = username" "UserAgent s = userAgent"
    using NewSession_InrD(1) [OF assms(1)] by auto
  show ?thesis
    using fields by (simp add: QuerySession_valid [OF assms(5) sel valid assms(6)])
qed

theorem session_round_trip_witness:
  "fst (NewSession ''alice'' ''ua'' 3600 world0) = Inr fresh_session
   \<and> fst (QuerySession
            (fst (snd (Session_insert fresh_session tables0
                         (snd (NewSession ''alice'' ''ua'' 3600 world0)))))
            (AuthToken fresh_session) 50 (world0\<lparr>ticks := 5\<rparr>)) =
       Inr (fresh_session\<lparr>Deadline := 1100\<rparr>)"
proof -
  let ?w1 = "world0\<lparr>ticks := Suc 0, draws := Suc 0, ids := Suc 0\<rparr>"
  let ?w = "world0\<lparr>ticks := 5\<rparr>"
  have t: "EncodeToString (map sample_bytes [0..<32]) =
             ''AAcOFRwjKjE4P0ZNVFtiaXB3foWMk5qhqK-2vcTL0tk''"
    by code_simp
  have new: "NewSession ''alice'' ''ua'' 3600 world0 = (Inr fresh_session, ?w1)"
    by (simp add: NewSession_result world0_def t fresh_session_def)
  have "fst (Session_insert fresh_session tables0 ?w1) = None"
    by (simp add: Session_insert_result world0_def tables0_def alice_session_def
        bob_session_def fresh_session_def)
  then have ins: "Session_insert fresh_session tables0 ?w1 =
      (None, fst (snd (Session_insert fresh_session tables0 ?w1)),
       snd (snd (Session_insert fresh_session tables0 ?w1)))"
    by (metis prod.collapse)
  have later: "clock ?w1 (Suc (ticks ?w1)) \<le>s clock ?w (ticks ?w)"
    by (simp add: world0_def)
  have valid: "clock ?w (ticks ?w) \<le>s Deadline fresh_session"
    by (simp add: world0_def fresh_session_def)
  have ok: "\<not> dbfail ?w (dbops ?w)" "\<not> dbfail ?w (Suc (dbops ?w))"
    by (simp_all add: world0_def)
  have c: "clock ?w (ticks ?w) + 50 = 1100"
    by (simp add: world0_def)
  from session_round_trip [OF new ins later valid ok, of 50]
  have "fst (QuerySession (fst (snd (Session_insert fresh_session tables0 ?w1)))
               (AuthToken fresh_session) 50 ?w) = Inr (fresh_session\<lparr>Deadline := 1100\<rparr>)"
    unfolding c by (rule conjunct1)
  then show ?thesis by (simp add: new)
qed

lemma Signin_unknown_user:
  assumes "\<not> dbfail w (dbops w)" and "\<not> dbfail w (Suc (dbops w))"
    and "find (\<lambda>u. user_name u = user) (users (DB d)) = None"
  shows "Signin d user pass UA w =
           (Inl ErrInvalidPassword, d, w\<lparr>dbops := Suc (Suc (dbops w))\<rparr>)"
  using assms
  by (simp add: Signin_def BeginTx_def select_passhash_by_username_def db_call_def)

lemma Signin_wrong_password:
  assumes "\<not> dbfail w (dbops w)" and "\<not> dbfail w (Suc (dbops w))"
    and "find (\<lambda>u. user_name u = user) (users (DB d)) = Some u"
    and "\<not> bcrypt_compare w (user_passhash u) pass"
  shows "Signin d user pass UA w =
           (Inl ErrInvalidPassword, d, w\<lparr>dbops := Suc (Suc (dbops w))\<rparr>)"
  using assms
  by (simp add: Signin_def BeginTx_def select_passhash_by_username_def db_call_def
      VerifyPassword_def)

text \<open>
  Claim C6. \<open>Signin\<close> for a name with no user row and \<open>Signin\<close> for an existing user
  with a password that the hasher rejects, on the same database and in the same world
  (transaction and query working): both fail with \<open>ErrInvalidPassword\<close>, and the two
  calls return the same triple of result, database and world; the database is unchanged.
\<close>

theorem Signin_invalid_password_indistinguishable:
  assumes "\<not> dbfail w (dbops w)" and "\<not> dbfail w (Suc (dbops w))"
    and "find (\<lambda>u. user_name u = nobody) (users (DB d)) = None"
    and "find (\<lambda>u. user_name u = user) (users (DB d)) = Some u"
    and "\<not> bcrypt_compare w (user_passhash u) pass"
  shows "fst (Signin d nobody pass' UA w) = Inl ErrInvalidPassword
       \<and> fst (Signin d user pass UA w) = Inl ErrInvalidPassword
       \<and> Signin d nobody pass' UA w = Signin d user pass UA w
       \<and> fst (snd (Signin d user pass UA w)) = d"
  by (simp add: Signin_unknown_user [OF assms(1,2,3)] Signin_wrong_password [OF assms(1,2,4,5)])

theorem Signin_invalid_password_indistinguishable_witness:
  "fst (Signin database0 ''nobody'' ''pw'' ''ua'' world0) = Inl ErrInvalidPassword
   \<and> fst (Signin database0 ''alice'' ''wrong'' ''ua'' world0) = Inl ErrInvalidPassword
   \<and> Signin database0 ''nobody'' ''pw'' ''ua'' world0 =
       Signin database0 ''alice'' ''wrong'' ''ua'' world0"
proof -
  have n: "find (\<lambda>u. user_name u = ''nobody'') (users (DB database0)) = None"
    by (simp add: database0_def tables0_def)
  have u: "find (\<lambda>u. user_name u = ''alice'') (users (DB database0)) =
             Some \<lparr>user_name = ''alice'', user_passhash = [112, 119], user_permission = 1\<rparr>"
    by (simp add: database0_def tables0_def)
  have ok: "\<not> dbfail world0 (dbops world0)" "\<not> dbfail world0 (Suc (dbops world0))"
    by (simp_all add: world0_def)
  have bad: "\<not> bcrypt_compare world0
      (user_passhash \<lparr>user_name = ''alice'', user_passhash = [112, 119], user_permission = 1\<rparr>)
      ''wrong''"
    by (simp add: world0_def)
  from Signin_invalid_password_indistinguishable [OF ok n u bad, of "''pw''" "''ua''"]
  show ?thesis by simp
qed

lemma DeleteSessionID_result:
  "DeleteSessionID d i w =
     (if dbfail w (dbops w)
      then (Some (Wrap ErrDriver ''Failed to delete token with ID''), d,
            w\<lparr>dbops := Suc (dbops w)\<rparr>)
      else if list_ex (\<lambda>r. ID r = i \<and> Username r = Username (session d)) (sessions (Tx d))
      then (None,
            d\<lparr>Tx := (Tx d)\<lparr>sessions :=
                 filter (\<lambda>r. \<not> (ID r = i \<and> Username r = Username (session d)))
                   (sessions (Tx d))\<rparr>\<rparr>,
            w\<lparr>dbops := Suc (dbops w)\<rparr>)
      else (Some ErrSessionNotFound, d, w\<lparr>dbops := Suc (dbops w)\<rparr>))"
proof (cases "list_ex (\<lambda>r. ID r = i \<and> Username r = Username (session d)) (sessions (Tx d))")
  case True
  then have "filter (\<lambda>r. ID r = i \<and> Username r = Username (session d)) (sessions (Tx d)) \<noteq> []"
    by (auto simp: list_ex_iff filter_empty_conv)
  with True show ?thesis
    by (simp add: DeleteSessionID_def execChanged_def delete_sessions_by_id_username_def
        db_call_def)
next
  case False
  then have none: "filter (\<lambda>r. ID r = i \<and> Username r = Username (session d)) (sessions (Tx d)) = []"
    by (auto simp: list_ex_iff filter_empty_conv)
  from False
  have "filter (\<lambda>r. \<not> (ID r = i \<and> Username r = Username (session d))) (sessions (Tx d)) =
          sessions (Tx d)"
    by (auto simp: list_ex_iff filter_id_conv)
  then have same: "d\<lparr>Tx := (Tx d)\<lparr>sessions :=
                 filter (\<lambda>r. \<not> (ID r = i \<and> Username r = Username (session d)))
                   (sessions (Tx d))\<rparr>\<rparr> = d"
    by simp
  show ?thesis
    using False none same
    by (simp add: DeleteSessionID_def execChanged_def delete_sessions_by_id_username_def
        db_call_def del: de_Morgan_conj)
qed

text \<open>
  Claim C7. \<open>DeleteSessionID\<close> deletes exactly the rows whose id is the given one and
  whose username is that of the transaction's own session. When every row with the given
  id belongs to another user (in particular when there is none), it fails with
  \<open>ErrSessionNotFound\<close> and changes nothing; when the caller owns such a row it succeeds;
  and in every case each row of another user is still stored afterwards.
\<close>

theorem DeleteSessionID_only_own:
  "(\<not> dbfail w (dbops w) \<longrightarrow>
      sessions (Tx (fst (snd (DeleteSessionID d i w)))) =
        filter (\<lambda>r. \<not> (ID r = i \<and> Username r = Username (session d))) (sessions (Tx d)))
   \<and> (\<not> dbfail w (dbops w) \<and>
       (\<forall>r\<in>set (sessions (Tx d)). ID r = i \<longrightarrow> Username r \<noteq> Username (session d)) \<longrightarrow>
         fst (DeleteSessionID d i w) = Some ErrSessionNotFound \<and>
         fst (snd (DeleteSessionID d i w)) = d)
   \<and> (\<not> dbfail w (dbops w) \<and>
       (\<exists>r\<in>set (sessions (Tx d)). ID r = i \<and> Username r = Username (session d)) \<longrightarrow>
         fst (DeleteSessionID d i w) = None)
   \<and> (\<forall>r\<in>set (sessions (Tx d)). Username r \<noteq> Username (session d) \<longrightarrow>
         r \<in> set (sessions (Tx (fst (snd (DeleteSessionID d i w))))))"
  by (auto simp: DeleteSessionID_result list_ex_iff filter_id_conv)

theorem DeleteSessionID_only_own_witness:
  "fst (DeleteSessionID \<lparr>Tx = tables0, session = alice_session\<rparr> 2 world0) =
     Some ErrSessionNotFound
   \<and> fst (DeleteSessionID \<lparr>Tx = tables0, session = alice_session\<rparr> 77 world0) =
     Some ErrSessionNotFound
   \<and> bob_session \<in> set (sessions (Tx (fst (snd
        (DeleteSessionID \<lparr>Tx = tables0, session = alice_session\<rparr> 2 world0)))))
   \<and> fst (DeleteSessionID \<lparr>Tx = tables0, session = alice_session\<rparr> 1 world0) = None
   \<and> sessions (Tx (fst (snd
        (DeleteSessionID \<lparr>Tx = tables0, session = alice_session\<rparr> 1 world0)))) = [bob_session]"
proof -
  let ?d = "\<lparr>Tx = tables0, session = alice_session\<rparr>"
  have ok: "\<not> dbfail world0 (dbops world0)"
    by (simp add: world0_def)
  have 1: "fst (DeleteSessionID ?d 2 world0) = Some ErrSessionNotFound"
    using DeleteSessionID_only_own [of world0 ?d 2] ok
    by (simp add: tables0_def alice_session_def bob_session_def)
  have 2: "fst (DeleteSessionID ?d 77 world0) = Some ErrSessionNotFound"
    using DeleteSessionID_only_own [of world0 ?d 77] ok
    by (simp add: tables0_def alice_session_def bob_session_def)
  have 3: "bob_session \<in> set (sessions (Tx (fst (snd (DeleteSessionID ?d 2 world0)))))"
    using DeleteSessionID_only_own [of world0 ?d 2]
    by (simp add: tables0_def alice_session_def bob_session_def)
  have 4: "fst (DeleteSessionID ?d 1 world0) = None
      \<and> sessions (Tx (fst (snd (DeleteSessionID ?d 1 world0)))) = [bob_session]"
    using DeleteSessionID_only_own [of world0 ?d 1] ok
    by (simp add: tables0_def alice_session_def bob_session_def)
  from 1 2 3 4 show ?thesis by simp
qed

lemma Commit_SomeD:
  assumes "Commit d t w = (Some e, d', w1)"
  shows "d' = d"
  using assms by (auto simp: Commit_def db_call_def split: if_splits bool.splits)

lemma Signup_rollback:
  "isl (fst (Signup d user pass token UA w)) \<Longrightarrow>
   fst (snd (Signup d user pass token UA w)) = d"
  by (auto simp: Signup_def dest: Commit_SomeD
      split: prod.splits sum.splits option.splits)

lemma useToken_world:
  "snd (snd (useToken tx token w)) = w\<lparr>dbops := Suc (dbops w)\<rparr>"
  by (simp add: useToken_def db_call_def split: bool.splits)

lemma User_insert_world:
  "snd (snd (User_insert u tx w)) = w\<lparr>dbops := Suc (dbops w)\<rparr>"
  by (simp add: User_insert_def db_call_def split: bool.splits)

lemma BeginTx_world:
  "snd (BeginTx d w) = w\<lparr>dbops := Suc (dbops w)\<rparr>"
  by (simp add: BeginTx_def db_call_def split: bool.splits)

lemma select_passhash_world:
  "snd (select_passhash_by_username t user w) = w\<lparr>dbops := Suc (dbops w)\<rparr>"
  by (simp add: select_passhash_by_username_def db_call_def split: option.splits bool.splits)

lemma Signup_InrE:
  assumes "fst (Signup d user pass token UA w) = Inr s"
  obtains t w1 t1 w2 u t2 w3 w4 t3 w5 d' w6 where
    "BeginTx d w = (Inr t, w1)"
    "useToken t token w1 = (None, t1, w2)"
    "NewUser user pass PermissionNormal w2 = Inr u"
    "User_insert u t1 w2 = (None, t2, w3)"
    "NewSession user UA (tokenLifespan (Conf d)) w3 = (Inr s, w4)"
    "Session_insert s t2 w4 = (None, t3, w5)"
    "Commit d t3 w5 = (None, d', w6)"
    "Signup d user pass token UA w = (Inr s, d', w6)"
  using assms
  by (auto simp: Signup_def split: prod.splits sum.splits option.splits)

lemma Signup_needs_entropy:
  assumes "entropy w (draws w) = None"
  shows "isl (fst (Signup d user pass token UA w))"
proof (rule ccontr)
  assume "\<not> isl (fst (Signup d user pass token UA w))"
  then obtain s where "fst (Signup d user pass token UA w) = Inr s"
    by (cases "fst (Signup d user pass token UA w)") auto
  then obtain t w1 t1 w2 u t2 w3 w4 where
    b: "BeginTx d w = (Inr t, w1)" and
    c: "useToken t token w1 = (None, t1, w2)" and
    i: "User_insert u t1 w2 = (None, t2, w3)" and
    n: "NewSession user UA (tokenLifespan (Conf d)) w3 = (Inr s, w4)"
    by (rule Signup_InrE)
  have "w1 = w\<lparr>dbops := Suc (dbops w)\<rparr>"
    using BeginTx_world [of d w] b by simp
  moreover have "w2 = w1\<lparr>dbops := Suc (dbops w1)\<rparr>"
    using useToken_world [of t token w1] c by simp
  moreover have "w3 = w2\<lparr>dbops := Suc (dbops w2)\<rparr>"
    using User_insert_world [of u t1 w2] i by simp
  ultimately have "entropy w3 (draws w3) = None"
    using assms by simp
  with NewSession_InrD(1) [OF n] show False by auto
qed

lemma Signin_needs_entropy:
  assumes "entropy w (draws w) = None"
  shows "isl (fst (Signin d user pass UA w))"
proof (rule ccontr)
  assume "\<not> isl (fst (Signin d user pass UA w))"
  then obtain s where "fst (Signin d user pass UA w) = Inr s"
    by (cases "fst (Signin d user pass UA w)") auto
  then obtain t w1 h w2 w3 where
    b: "BeginTx d w = (Inr t, w1)" and
    q: "select_passhash_by_username t user w1 = (Inr h, w2)" and
    n: "NewSession user UA (tokenLifespan (Conf d)) w2 = (Inr s, w3)"
    by (rule Signin_InrE)
  have "entropy w2 (draws w2) = None"
    using BeginTx_InrD(2) [OF b] select_passhash_InrD(1) [OF q] assms by simp
  with NewSession_InrD(1) [OF n] show False by auto
qed

lemma length_encodeURL: "length encodeURL = 64"
  by (simp add: encodeURL_def)

lemma enc6_alphabet: "enc6 v \<in> set encodeURL"
proof -
  have "and v 0x3F \<le> 0x3F"
    by (rule word_and_le1)
  then have "unat (and v 0x3F) \<le> unat (0x3F :: 64 word)"
    by (simp add: word_le_nat_alt)
  then have "unat (and v 0x3F) < length encodeURL"
    by (simp add: length_encodeURL)
  then show ?thesis
    unfolding enc6_def by (rule nth_mem)
qed

lemma EncodeToString_alphabet: "set (EncodeToString bs) \<subseteq> set encodeURL"
  by (induction bs rule: EncodeToString.induct) (simp_all add: Let_def enc6_alphabet)

lemma length_EncodeToString: "length (EncodeToString bs) = (8 * length bs + 5) div 6"
  by (induction bs rule: EncodeToString.induct) (simp_all add: Let_def)

lemma encodeURL_url_safe:
  "set encodeURL =
     set ''ABCDEFGHIJKLMNOPQRSTUVWXYZ'' \<union> set ''abcdefghijklmnopqrstuvwxyz'' \<union>
     set ''0123456789'' \<union> {CHR ''-'', CHR ''_''}"
  by (auto simp: encodeURL_def)

text \<open>The encoding loses nothing: byte strings of equal length with equal encodings
  are equal.\<close>

lemma distinct_encodeURL: "distinct encodeURL"
  by (simp add: encodeURL_def)

lemma sextet_mask: "and v (0x3F :: 64 word) = take_bit 6 v"
proof -
  have "(0x3F :: 64 word) = mask 6"
    by (simp add: mask_eq_exp_minus_1)
  then show ?thesis
    by (simp add: take_bit_eq_mask)
qed

lemma enc6_inject:
  assumes "enc6 a = enc6 b"
  shows "take_bit 6 a = take_bit 6 b"
proof -
  have bound: "unat (and v 0x3F) < length encodeURL" for v :: "64 word"
  proof -
    have "and v 0x3F \<le> 0x3F"
      by (rule word_and_le1)
    then have "unat (and v 0x3F) \<le> unat (0x3F :: 64 word)"
      by (simp add: word_le_nat_alt)
    then show ?thesis
      by (simp add: length_encodeURL)
  qed
  from assms have "encodeURL ! unat (and a 0x3F) = encodeURL ! unat (and b 0x3F)"
    by (simp add: enc6_def)
  then have "unat (and a 0x3F) = unat (and b 0x3F)"
    using nth_eq_iff_index_eq [OF distinct_encodeURL bound bound] by blast
  then have "and a 0x3F = and b 0x3F"
    by (simp add: word_unat_eq_iff)
  then show ?thesis
    by (simp add: sextet_mask)
qed

lemma sextet_bits:
  fixes v v' :: "64 word"
  assumes "take_bit 6 (drop_bit k v) = take_bit 6 (drop_bit k v')" and "k \<le> n" and "n < k + 6"
  shows "bit v n = bit v' n"
proof -
  from assms(1) have "bit (take_bit 6 (drop_bit k v)) (n - k) = bit (take_bit 6 (drop_bit k v')) (n - k)"
    by simp
  moreover have "n - k < 6"
    using assms(2,3) by arith
  ultimately show ?thesis
    using assms(2) by (simp add: bit_take_bit_iff bit_drop_bit_eq)
qed

lemma bit_group_hi:
  fixes a b c :: byte
  assumes "j < 8"
  shows "bit (or (or (push_bit 16 (ucast a)) (push_bit 8 (ucast b))) (ucast c) :: 64 word) (16 + j)
           = bit a j"
  using assms by (auto simp: bit_or_iff bit_push_bit_iff bit_ucast_iff dest: bit_imp_le_length)

lemma bit_group_mid:
  fixes a b c :: byte
  assumes "j < 8"
  shows "bit (or (or (push_bit 16 (ucast a)) (push_bit 8 (ucast b))) (ucast c) :: 64 word) (8 + j)
           = bit b j"
  using assms by (auto simp: bit_or_iff bit_push_bit_iff bit_ucast_iff dest: bit_imp_le_length)

lemma bit_group_lo:
  fixes a b c :: byte
  assumes "j < 8"
  shows "bit (or (or (push_bit 16 (ucast a)) (push_bit 8 (ucast b))) (ucast c) :: 64 word) j
           = bit c j"
  using assms by (auto simp: bit_or_iff bit_push_bit_iff bit_ucast_iff dest: bit_imp_le_length)

lemma group3_inject:
  fixes a b c a' b' c' :: byte
  defines "v \<equiv> or (or (push_bit 16 (ucast a)) (push_bit 8 (ucast b))) (ucast c) :: 64 word"
    and "v' \<equiv> or (or (push_bit 16 (ucast a')) (push_bit 8 (ucast b'))) (ucast c') :: 64 word"
  assumes "enc6 (drop_bit 18 v) = enc6 (drop_bit 18 v')"
    and "enc6 (drop_bit 12 v) = enc6 (drop_bit 12 v')"
  shows "a = a'"
    and "enc6 (drop_bit 6 v) = enc6 (drop_bit 6 v') \<Longrightarrow> b = b'"
    and "enc6 (drop_bit 6 v) = enc6 (drop_bit 6 v') \<Longrightarrow> enc6 v = enc6 v' \<Longrightarrow> c = c'"
proof -
  note s18 = enc6_inject [OF assms(3)] and s12 = enc6_inject [OF assms(4)]
  have hi: "bit v n = bit v' n" if "12 \<le> n" and "n < 24" for n
  proof (cases "n < 18")
    case True
    with that show ?thesis by (intro sextet_bits [OF s12]) simp_all
  next
    case False
    with that show ?thesis by (intro sextet_bits [OF s18]) simp_all
  qed
  show "a = a'"
  proof (rule bit_word_eqI)
    fix j assume "j < LENGTH(8)"
    then have j: "j < 8" by simp
    have "bit a j = bit v (16 + j)"
      unfolding v_def by (rule bit_group_hi [OF j, symmetric])
    also have "\<dots> = bit v' (16 + j)"
      using j by (intro hi) simp_all
    also have "\<dots> = bit a' j"
      unfolding v'_def by (rule bit_group_hi [OF j])
    finally show "bit a j = bit a' j" .
  qed
  show "b = b'" if "enc6 (drop_bit 6 v) = enc6 (drop_bit 6 v')"
  proof (rule bit_word_eqI)
    note s6 = enc6_inject [OF that]
    fix j assume "j < LENGTH(8)"
    then have j: "j < 8" by simp
    have mid: "bit v (8 + j) = bit v' (8 + j)"
    proof (cases "8 + j < 12")
      case True
      then show ?thesis by (intro sextet_bits [OF s6]) simp_all
    next
      case False
      with j show ?thesis by (intro hi) simp_all
    qed
    have "bit b j = bit v (8 + j)"
      unfolding v_def by (rule bit_group_mid [OF j, symmetric])
    also note mid
    also have "bit v' (8 + j) = bit b' j"
      unfolding v'_def by (rule bit_group_mid [OF j])
    finally show "bit b j = bit b' j" .
  qed
  show "c = c'" if "enc6 (drop_bit 6 v) = enc6 (drop_bit 6 v')" and "enc6 v = enc6 v'"
  proof (rule bit_word_eqI)
    note s6 = enc6_inject [OF that(1)]
    from enc6_inject [OF that(2)]
    have s0: "take_bit 6 (drop_bit 0 v) = take_bit 6 (drop_bit 0 v')" by simp
    fix j assume "j < LENGTH(8)"
    then have j: "j < 8" by simp
    have lo: "bit v j = bit v' j"
    proof (cases "j < 6")
      case True
      then show ?thesis by (intro sextet_bits [OF s0]) simp_all
    next
      case False
      with j show ?thesis by (intro sextet_bits [OF s6]) simp_all
    qed
    have "bit c j = bit v j"
      unfolding v_def by (rule bit_group_lo [OF j, symmetric])
    also note lo
    also have "bit v' j = bit c' j"
      unfolding v'_def by (rule bit_group_lo [OF j])
    finally show "bit c j = bit c' j" .
  qed
qed

lemma EncodeToString_inject:
  "length xs = length ys \<Longrightarrow> EncodeToString xs = EncodeToString ys \<Longrightarrow> xs = ys"
proof (induction xs arbitrary: ys rule: EncodeToString.induct)
  case (1 a b c rest)
  from "1.prems"(1) obtain a' b' c' rest' where
    ys: "ys = a' # b' # c' # rest'" and len: "length rest = length rest'"
    by (auto simp: length_Suc_conv eq_commute [of "Suc _"])
  from "1.prems"(2) have
    e: "enc6 (drop_bit 18 (or (or (push_bit 16 (ucast a)) (push_bit 8 (ucast b))) (ucast c))) =
        enc6 (drop_bit 18 (or (or (push_bit 16 (ucast a')) (push_bit 8 (ucast b'))) (ucast c')))"
       "enc6 (drop_bit 12 (or (or (push_bit 16 (ucast a)) (push_bit 8 (ucast b))) (ucast c))) =
        enc6 (drop_bit 12 (or (or (push_bit 16 (ucast a')) (push_bit 8 (ucast b'))) (ucast c')))"
       "enc6 (drop_bit 6 (or (or (push_bit 16 (ucast a)) (push_bit 8 (ucast b))) (ucast c))) =
        enc6 (drop_bit 6 (or (or (push_bit 16 (ucast a')) (push_bit 8 (ucast b'))) (ucast c')))"
       "enc6 (or (or (push_bit 16 (ucast a)) (push_bit 8 (ucast b))) (ucast c)) =
        enc6 (or (or (push_bit 16 (ucast a')) (push_bit 8 (ucast b'))) (ucast c'))"
    and r: "EncodeToString rest = EncodeToString rest'"
    by (simp_all add: ys Let_def)
  have "a = a'" "b = b'" "c = c'"
    using group3_inject [OF e(1,2)] e(3,4) by blast+
  moreover have "rest = rest'"
    using len r by (rule "1.IH" [OF refl])
  ultimately show ?case
    by (simp add: ys)
next
  case (2 a b)
  from "2.prems"(1) obtain a' b' where ys: "ys = [a', b']"
    by (auto simp: length_Suc_conv eq_commute [of "Suc _"])
  from "2.prems"(2) have
    e: "enc6 (drop_bit 18 (or (or (push_bit 16 (ucast a)) (push_bit 8 (ucast b))) (ucast (0 :: byte)))) =
        enc6 (drop_bit 18 (or (or (push_bit 16 (ucast a')) (push_bit 8 (ucast b'))) (ucast (0 :: byte))))"
       "enc6 (drop_bit 12 (or (or (push_bit 16 (ucast a)) (push_bit 8 (ucast b))) (ucast (0 :: byte)))) =
        enc6 (drop_bit 12 (or (or (push_bit 16 (ucast a')) (push_bit 8 (ucast b'))) (ucast (0 :: byte))))"
       "enc6 (drop_bit 6 (or (or (push_bit 16 (ucast a)) (push_bit 8 (ucast b))) (ucast (0 :: byte)))) =
        enc6 (drop_bit 6 (or (or (push_bit 16 (ucast a')) (push_bit 8 (ucast b'))) (ucast (0 :: byte))))"
    by (simp_all add: ys Let_def)
  have "a = a'" "b = b'"
    using group3_inject(1,2) [OF e(1,2)] e(3) by blast+
  then show ?case
    by (simp add: ys)
next
  case (3 a)
  from "3.prems"(1) obtain a' where ys: "ys = [a']"
    by (auto simp: length_Suc_conv eq_commute [of "Suc _"])
  from "3.prems"(2) have
    e: "enc6 (drop_bit 18 (or (or (push_bit 16 (ucast a)) (push_bit 8 (ucast (0 :: byte)))) (ucast (0 :: byte)))) =
        enc6 (drop_bit 18 (or (or (push_bit 16 (ucast a')) (push_bit 8 (ucast (0 :: byte)))) (ucast (0 :: byte))))"
       "enc6 (drop_bit 12 (or (or (push_bit 16 (ucast a)) (push_bit 8 (ucast (0 :: byte)))) (ucast (0 :: byte)))) =
        enc6 (drop_bit 12 (or (or (push_bit 16 (ucast a')) (push_bit 8 (ucast (0 :: byte)))) (ucast (0 :: byte))))"
    by (simp_all add: ys Let_def)
  have "a = a'"
    using group3_inject(1) [OF e(1,2)] .
  then show ?case
    by (simp add: ys)
next
  case 4
  then show ?case by simp
qed

lemma token_bytes_inject:
  assumes "EncodeToString (map f [0..<32]) = EncodeToString (map g [0..<32])"
  shows "map f [0..<32] = map g [0..<32]"
  using assms by (intro EncodeToString_inject) simp_all

lemma Signin_entropy_fault:
  assumes "\<not> dbfail w (dbops w)" and "\<not> dbfail w (Suc (dbops w))"
    and "find (\<lambda>u. user_name u = user) (users (DB d)) = Some u"
    and "bcrypt_compare w (user_passhash u) pass"
    and "entropy w (draws w) = None"
  shows "fst (Signin d user pass UA w) =
           Inl (Wrap (Wrap ErrEntropy ''Failed to generate randomness'')
                  ''Failed to generate a token'')"
  using assms
  by (simp add: Signin_def BeginTx_def select_passhash_by_username_def VerifyPassword_def
      NewSession_result db_call_def)

text \<open>
  Claim C8. \<open>randToken\<close> asks \<open>crypto/rand\<close> for 32 bytes (256 bits). When the source
  delivers them the token is their \<open>RawURLEncoding\<close>: 43 characters, each a letter, a
  digit, \<open>-\<close> or \<open>_\<close>, with no padding character, and no other 32 bytes have the same
  encoding. When the source fails, \<open>randToken\<close>
  fails, \<open>NewSession\<close> fails with that error wrapped, and \<open>Signin\<close> and \<open>Signup\<close> fail
  and leave the database unchanged; a \<open>Signin\<close> that has admitted the caller returns
  exactly that wrapped error. There is no other source of bytes in the code.
\<close>

theorem randToken_entropy:
  "(\<forall>f. entropy w (draws w) = Some f \<longrightarrow>
        fst (randToken w) = Inr (EncodeToString (map f [0..<32])) \<and>
        length (map f [0..<32]) = 32 \<and>
        length (EncodeToString (map f [0..<32])) = 43 \<and>
        set (EncodeToString (map f [0..<32])) \<subseteq>
          set ''ABCDEFGHIJKLMNOPQRSTUVWXYZ'' \<union> set ''abcdefghijklmnopqrstuvwxyz'' \<union>
          set ''0123456789'' \<union> {CHR ''-'', CHR ''_''} \<and>
        CHR ''='' \<notin> set (EncodeToString (map f [0..<32])) \<and>
        (\<forall>g. EncodeToString (map g [0..<32]) = EncodeToString (map f [0..<32]) \<longrightarrow>
             map g [0..<32] = map f [0..<32]))
   \<and> (entropy w (draws w) = None \<longrightarrow>
        fst (randToken w) = Inl (Wrap ErrEntropy ''Failed to generate randomness'') \<and>
        fst (NewSession username userAgent ttl w) =
          Inl (Wrap (Wrap ErrEntropy ''Failed to generate randomness'')
                 ''Failed to generate a token'') \<and>
        isl (fst (Signin d user pass UA w)) \<and>
        fst (snd (Signin d user pass UA w)) = d \<and>
        isl (fst (Signup d user pass token UA w)) \<and>
        fst (snd (Signup d user pass token UA w)) = d \<and>
        (\<forall>u. \<not> dbfail w (dbops w) \<and> \<not> dbfail w (Suc (dbops w)) \<and>
             find (\<lambda>u. user_name u = user) (users (DB d)) = Some u \<and>
             bcrypt_compare w (user_passhash u) pass \<longrightarrow>
             fst (Signin d user pass UA w) =
               Inl (Wrap (Wrap ErrEntropy ''Failed to generate randomness'')
                      ''Failed to generate a token'')))"
proof (intro conjI allI impI)
  fix f
  assume f: "entropy w (draws w) = Some f"
  show "fst (randToken w) = Inr (EncodeToString (map f [0..<32]))"
    using f by (simp add: randToken_def rand_Read_def)
  show "length (map f [0..<32]) = 32"
    by simp
  show "length (EncodeToString (map f [0..<32])) = 43"
    by (simp add: length_EncodeToString)
  show safe: "set (EncodeToString (map f [0..<32])) \<subseteq>
          set ''ABCDEFGHIJKLMNOPQRSTUVWXYZ'' \<union> set ''abcdefghijklmnopqrstuvwxyz'' \<union>
          set ''0123456789'' \<union> {CHR ''-'', CHR ''_''}"
    using EncodeToString_alphabet [of "map f [0..<32]"] unfolding encodeURL_url_safe .
  show "CHR ''='' \<notin> set (EncodeToString (map f [0..<32]))"
    using safe by auto
  show "map g [0..<32] = map f [0..<32]"
    if "EncodeToString (map g [0..<32]) = EncodeToString (map f [0..<32])" for g
    using that by (rule token_bytes_inject)
next
  assume n: "entropy w (draws w) = None"
  show "fst (randToken w) = Inl (Wrap ErrEntropy ''Failed to generate randomness'')"
    using n by (simp add: randToken_def rand_Read_def)
  show "fst (NewSession username userAgent ttl w) =
          Inl (Wrap (Wrap ErrEntropy ''Failed to generate randomness'')
                 ''Failed to generate a token'')"
    using n by (simp add: NewSession_result)
  show "isl (fst (Signin d user pass UA w))"
    using n by (rule Signin_needs_entropy)
  then show "fst (snd (Signin d user pass UA w)) = d"
    by (rule Signin_rollback)
  show "isl (fst (Signup d user pass token UA w))"
    using n by (rule Signup_needs_entropy)
  then show "fst (snd (Signup d user pass token UA w)) = d"
    by (rule Signup_rollback)
  show "fst (Signin d user pass UA w) =
          Inl (Wrap (Wrap ErrEntropy ''Failed to generate randomness'')
                 ''Failed to generate a token'')"
    if "\<not> dbfail w (dbops w) \<and> \<not> dbfail w (Suc (dbops w)) \<and>
        find (\<lambda>u. user_name u = user) (users (DB d)) = Some u \<and>
        bcrypt_compare w (user_passhash u) pass" for u
    using that n Signin_entropy_fault [of w user d u pass UA] by simp
qed

theorem randToken_entropy_witness:
  "fst (randToken world0) = Inr ''AAcOFRwjKjE4P0ZNVFtiaXB3foWMk5qhqK-2vcTL0tk''
   \<and> fst (randToken (world0\<lparr>entropy := \<lambda>n. None\<rparr>)) =
       Inl (Wrap ErrEntropy ''Failed to generate randomness'')
   \<and> fst (Signin database0 ''alice'' ''pw'' ''ua'' (world0\<lparr>entropy := \<lambda>n. None\<rparr>)) =
       Inl (Wrap (Wrap ErrEntropy ''Failed to generate randomness'')
              ''Failed to generate a token'')
   \<and> fst (snd (Signin database0 ''alice'' ''pw'' ''ua'' (world0\<lparr>entropy := \<lambda>n. None\<rparr>))) =
       database0"
proof -
  let ?w = "world0\<lparr>entropy := \<lambda>n. None\<rparr>"
  have t: "EncodeToString (map sample_bytes [0..<32]) =
             ''AAcOFRwjKjE4P0ZNVFtiaXB3foWMk5qhqK-2vcTL0tk''"
    by code_simp
  have 1: "fst (randToken world0) = Inr ''AAcOFRwjKjE4P0ZNVFtiaXB3foWMk5qhqK-2vcTL0tk''"
    using randToken_entropy [of world0, THEN conjunct1, rule_format, of sample_bytes]
    by (simp add: world0_def t)
  have n: "entropy ?w (draws ?w) = None"
    by simp
  have u: "find (\<lambda>u. user_name u = ''alice'') (users (DB database0)) =
             Some \<lparr>user_name = ''alice'', user_passhash = [112, 119], user_permission = 1\<rparr>"
    by (simp add: database0_def tables0_def)
  note r = randToken_entropy [where w = ?w and d = database0 and user = "''alice''"
      and pass = "''pw''" and UA = "''ua''", THEN conjunct2, rule_format, OF n]
  have 2: "fst (randToken ?w) = Inl (Wrap ErrEntropy ''Failed to generate randomness'')"
    using r by simp
  have 3: "fst (snd (Signin database0 ''alice'' ''pw'' ''ua'' ?w)) = database0"
    using r by simp
  have 4: "fst (Signin database0 ''alice'' ''pw'' ''ua'' ?w) =
       Inl (Wrap (Wrap ErrEntropy ''Failed to generate randomness'')
              ''Failed to generate a token'')"
    using r u by (simp add: world0_def)
  from 1 2 3 4 show ?thesis by simp
qed

lemma Signup_invalid_token:
  assumes "\<not> dbfail w (dbops w)" and "\<not> dbfail w (Suc (dbops w))"
    and "\<not> list_ex (\<lambda>i. invite_token i = token \<and> 0 < invite_remaining i) (tokens (DB d))"
  shows "Signup d user pass token UA w =
           (Inl ErrInvalidToken, d, w\<lparr>dbops := Suc (Suc (dbops w))\<rparr>)"
  using assms by (simp add: Signup_def BeginTx_def useToken_def db_call_def)

lemma Signup_username_taken:
  assumes "\<not> dbfail w (dbops w)" and "\<not> dbfail w (Suc (dbops w))"
    and "\<not> dbfail w (Suc (Suc (dbops w)))"
    and "list_ex (\<lambda>i. invite_token i = token \<and> 0 < invite_remaining i) (tokens (DB d))"
    and "bcrypt_generate w pass = Some h"
    and "list_ex (\<lambda>r. user_name r = user) (users (DB d))"
  shows "Signup d user pass token UA w =
           (Inl ErrUsernameTaken, d, w\<lparr>dbops := Suc (Suc (Suc (dbops w)))\<rparr>)"
  using assms
  by (simp add: Signup_def BeginTx_def useToken_def NewUser_def User_insert_def db_call_def)

lemma Signup_admitted:
  assumes "\<not> dbfail w (dbops w)" and "\<not> dbfail w (Suc (dbops w))"
    and "\<not> dbfail w (Suc (Suc (dbops w)))"
    and "list_ex (\<lambda>i. invite_token i = token \<and> 0 < invite_remaining i) (tokens (DB d))"
    and "bcrypt_generate w pass = Some h"
    and "\<not> list_ex (\<lambda>r. user_name r = user) (users (DB d))"
    and "entropy w (draws w) = Some f"
  shows "Signup d user pass token UA w =
           (case Session_insert
                   \<lparr>ID = idgen w (ids w), Username = user,
                      AuthToken = EncodeToString (map f [0..<32]),
                      Deadline = clock w (ticks w) + tokenLifespan (Conf d), UserAgent = UA\<rparr>
                   ((DB d)\<lparr>tokens := map (\<lambda>i. if invite_token i = token \<and> 0 < invite_remaining i
                                                then i\<lparr>invite_remaining := invite_remaining i - 1\<rparr>
                                                else i) (tokens (DB d)),
                            users := users (DB d) @
                               [\<lparr>user_name = user, user_passhash = h,
                                  user_permission = PermissionNormal\<rparr>]\<rparr>)
                   (w\<lparr>dbops := Suc (Suc (Suc (dbops w))), ticks := Suc (ticks w),
                      draws := Suc (draws w), ids := Suc (ids w)\<rparr>) of
              (Some err, t3, w5) \<Rightarrow> (Inl err, d, w5)
            | (None, t3, w5) \<Rightarrow>
                (case Commit d t3 w5 of
                   (Some err, d', w6) \<Rightarrow> (Inl err, d', w6)
                 | (None, d', w6) \<Rightarrow>
                     (Inr \<lparr>ID = idgen w (ids w), Username = user,
                           AuthToken = EncodeToString (map f [0..<32]),
                           Deadline = clock w (ticks w) + tokenLifespan (Conf d),
                           UserAgent = UA\<rparr>, d', w6)))"
  using assms
  by (simp add: Signup_def BeginTx_def useToken_def NewUser_def User_insert_def db_call_def
      NewSession_result)

text \<open>
  Claim C3. \<open>Signup\<close> is one transaction. Whenever it fails, the database is the one it
  started from: the invite token is not consumed and there is no new user or session row.
  Three failures are spelt out: an invite token that is unknown or has no use left gives
  \<open>ErrInvalidToken\<close>; a name in use gives \<open>ErrUsernameTaken\<close>, after the token was
  consumed inside the transaction; a failing session \<open>INSERT\<close> gives its wrapped error,
  after the token was consumed and the user row written inside the transaction. When
  \<open>Signup\<close> succeeds, the committed database has the token consumed and the user row
  added.
\<close>

theorem Signup_atomic:
  "(isl (fst (Signup d user pass token UA w)) \<longrightarrow>
      fst (snd (Signup d user pass token UA w)) = d)
   \<and> (\<not> dbfail w (dbops w) \<and> \<not> dbfail w (Suc (dbops w)) \<and>
       \<not> list_ex (\<lambda>i. invite_token i = token \<and> 0 < invite_remaining i) (tokens (DB d)) \<longrightarrow>
         fst (Signup d user pass token UA w) = Inl ErrInvalidToken \<and>
         fst (snd (Signup d user pass token UA w)) = d)
   \<and> (\<forall>h. \<not> dbfail w (dbops w) \<and> \<not> dbfail w (Suc (dbops w)) \<and>
       \<not> dbfail w (Suc (Suc (dbops w))) \<and>
       list_ex (\<lambda>i. invite_token i = token \<and> 0 < invite_remaining i) (tokens (DB d)) \<and>
       bcrypt_generate w pass = Some h \<and>
       list_ex (\<lambda>r. user_name r = user) (users (DB d)) \<longrightarrow>
         fst (Signup d user pass token UA w) = Inl ErrUsernameTaken \<and>
         fst (snd (Signup d user pass token UA w)) = d)
   \<and> (\<forall>h f. \<not> dbfail w (dbops w) \<and> \<not> dbfail w (Suc (dbops w)) \<and>
       \<not> dbfail w (Suc (Suc (dbops w))) \<and>
       list_ex (\<lambda>i. invite_token i = token \<and> 0 < invite_remaining i) (tokens (DB d)) \<and>
       bcrypt_generate w pass = Some h \<and>
       \<not> list_ex (\<lambda>r. user_name r = user) (users (DB d)) \<and>
       entropy w (draws w) = Some f \<and>
       dbfail w (Suc (Suc (Suc (dbops w)))) \<longrightarrow>
         fst (Signup d user pass token UA w) = Inl (Wrap ErrDriver ''Failed to save session'') \<and>
         fst (snd (Signup d user pass token UA w)) = d)
   \<and> (\<forall>s. fst (Signup d user pass token UA w) = Inr s \<longrightarrow>
         tokens (DB (fst (snd (Signup d user pass token UA w)))) =
           map (\<lambda>i. if invite_token i = token \<and> 0 < invite_remaining i
                    then i\<lparr>invite_remaining := invite_remaining i - 1\<rparr> else i)
             (tokens (DB d)) \<and>
         list_ex (\<lambda>i. invite_token i = token \<and> 0 < invite_remaining i) (tokens (DB d)) \<and>
         (\<exists>u. users (DB (fst (snd (Signup d user pass token UA w)))) = users (DB d) @ [u] \<and>
              user_name u = user))"
proof (intro conjI allI impI)
  show "fst (snd (Signup d user pass token UA w)) = d"
    if "isl (fst (Signup d user pass token UA w))"
    using that by (rule Signup_rollback)
next
  assume "\<not> dbfail w (dbops w) \<and> \<not> dbfail w (Suc (dbops w)) \<and>
       \<not> list_ex (\<lambda>i. invite_token i = token \<and> 0 < invite_remaining i) (tokens (DB d))"
  then show "fst (Signup d user pass token UA w) = Inl ErrInvalidToken"
    and "fst (snd (Signup d user pass token UA w)) = d"
    by (simp_all add: Signup_invalid_token)
next
  fix h
  assume "\<not> dbfail w (dbops w) \<and> \<not> dbfail w (Suc (dbops w)) \<and>
       \<not> dbfail w (Suc (Suc (dbops w))) \<and>
       list_ex (\<lambda>i. invite_token i = token \<and> 0 < invite_remaining i) (tokens (DB d)) \<and>
       bcrypt_generate w pass = Some h \<and>
       list_ex (\<lambda>r. user_name r = user) (users (DB d))"
  then show "fst (Signup d user pass token UA w) = Inl ErrUsernameTaken"
    and "fst (snd (Signup d user pass token UA w)) = d"
    using Signup_username_taken [of w token d pass h user UA] by simp_all
next
  fix h f
  assume a: "\<not> dbfail w (dbops w) \<and> \<not> dbfail w (Suc (dbops w)) \<and>
       \<not> dbfail w (Suc (Suc (dbops w))) \<and>
       list_ex (\<lambda>i. invite_token i = token \<and> 0 < invite_remaining i) (tokens (DB d)) \<and>
       bcrypt_generate w pass = Some h \<and>
       \<not> list_ex (\<lambda>r. user_name r = user) (users (DB d)) \<and>
       entropy w (draws w) = Some f \<and>
       dbfail w (Suc (Suc (Suc (dbops w))))"
  then show "fst (Signup d user pass token UA w) = Inl (Wrap ErrDriver ''Failed to save session'')"
    and "fst (snd (Signup d user pass token UA w)) = d"
    using Signup_admitted [of w token d pass h user f UA]
    by (simp_all add: Session_insert_result)
next
  fix s
  assume ok: "fst (Signup d user pass token UA w) = Inr s"
  then obtain t w1 t1 w2 u t2 w3 w4 t3 w5 d' w6 where
    b: "BeginTx d w = (Inr t, w1)" and
    c: "useToken t token w1 = (None, t1, w2)" and
    nu: "NewUser user pass PermissionNormal w2 = Inr u" and
    i: "User_insert u t1 w2 = (None, t2, w3)" and
    si: "Session_insert s t2 w4 = (None, t3, w5)" and
    cm: "Commit d t3 w5 = (None, d', w6)" and
    res: "Signup d user pass token UA w = (Inr s, d', w6)"
    by (rule Signup_InrE)
  have r: "fst (snd (Signup d user pass token UA w)) = d'"
    by (simp add: res)
  have t: "t = DB d"
    using BeginTx_InrD(1) [OF b] .
  have t1: "tokens t1 = map (\<lambda>i. if invite_token i = token \<and> 0 < invite_remaining i
                    then i\<lparr>invite_remaining := invite_remaining i - 1\<rparr> else i) (tokens t)"
      "users t1 = users t"
      "list_ex (\<lambda>i. invite_token i = token \<and> 0 < invite_remaining i) (tokens t)"
    using c by (auto simp: useToken_def db_call_def split: if_splits bool.splits)
  have u: "user_name u = user"
    using nu by (auto simp: NewUser_def split: option.splits)
  have t2: "tokens t2 = tokens t1" "users t2 = users t1 @ [u]"
    using i by (auto simp: User_insert_def db_call_def split: if_splits bool.splits)
  have t3: "tokens t3 = tokens t2" "users t3 = users t2"
    using Session_insert_NoneD(1) [OF si] by simp_all
  have d': "DB d' = t3"
    using Commit_NoneD(1) [OF cm] by simp
  show "tokens (DB (fst (snd (Signup d user pass token UA w)))) =
           map (\<lambda>i. if invite_token i = token \<and> 0 < invite_remaining i
                    then i\<lparr>invite_remaining := invite_remaining i - 1\<rparr> else i)
             (tokens (DB d))"
    by (simp add: r d' t3 t2 t1 t)
  show "list_ex (\<lambda>i. invite_token i = token \<and> 0 < invite_remaining i) (tokens (DB d))"
    using t1(3) t by simp
  show "\<exists>u. users (DB (fst (snd (Signup d user pass token UA w)))) = users (DB d) @ [u] \<and>
              user_name u = user"
    using u by (simp add: r d' t3 t2 t1 t)
qed

theorem Signup_atomic_witness:
  "fst (Signup database0 ''carol'' ''pw'' ''inv0'' ''ua'' world0) = Inl ErrInvalidToken
   \<and> fst (snd (Signup database0 ''carol'' ''pw'' ''inv0'' ''ua'' world0)) = database0
   \<and> fst (Signup database0 ''alice'' ''pw'' ''inv1'' ''ua'' world0) = Inl ErrUsernameTaken
   \<and> fst (snd (Signup database0 ''alice'' ''pw'' ''inv1'' ''ua'' world0)) = database0
   \<and> fst (Signup database0 ''carol'' ''pw'' ''inv1'' ''ua'' (world0\<lparr>dbfail := \<lambda>n. n = 3\<rparr>)) =
       Inl (Wrap ErrDriver ''Failed to save session'')
   \<and> fst (snd (Signup database0 ''carol'' ''pw'' ''inv1'' ''ua''
                  (world0\<lparr>dbfail := \<lambda>n. n = 3\<rparr>))) = database0
   \<and> fst (Signup database0 ''carol'' ''pw'' ''inv1'' ''ua'' world0) = Inr carol_signup_session
   \<and> tokens (DB (fst (snd (Signup database0 ''carol'' ''pw'' ''inv1'' ''ua'' world0)))) =
       [\<lparr>invite_token = ''inv1'', invite_remaining = 0\<rparr>,
        \<lparr>invite_token = ''inv0'', invite_remaining = 0\<rparr>]"
proof -
  have 1: "fst (Signup database0 ''carol'' ''pw'' ''inv0'' ''ua'' world0) = Inl ErrInvalidToken
      \<and> fst (snd (Signup database0 ''carol'' ''pw'' ''inv0'' ''ua'' world0)) = database0"
    using Signup_atomic [of database0 "''carol''" "''pw''" "''inv0''" "''ua''" world0]
    by (simp add: world0_def database0_def tables0_def)
  have 2: "fst (Signup database0 ''alice'' ''pw'' ''inv1'' ''ua'' world0) = Inl ErrUsernameTaken
      \<and> fst (snd (Signup database0 ''alice'' ''pw'' ''inv1'' ''ua'' world0)) = database0"
    using Signup_atomic [of database0 "''alice''" "''pw''" "''inv1''" "''ua''" world0]
    by (simp add: world0_def database0_def tables0_def)
  have 3: "fst (Signup database0 ''carol'' ''pw'' ''inv1'' ''ua'' (world0\<lparr>dbfail := \<lambda>n. n = 3\<rparr>)) =
       Inl (Wrap ErrDriver ''Failed to save session'')
      \<and> fst (snd (Signup database0 ''carol'' ''pw'' ''inv1'' ''ua''
                  (world0\<lparr>dbfail := \<lambda>n. n = 3\<rparr>))) = database0"
    using Signup_atomic [of database0 "''carol''" "''pw''" "''inv1''" "''ua''"
        "world0\<lparr>dbfail := \<lambda>n. n = 3\<rparr>"]
    by (simp add: world0_def database0_def tables0_def)
  have t: "EncodeToString (map sample_bytes [0..<32]) =
             ''AAcOFRwjKjE4P0ZNVFtiaXB3foWMk5qhqK-2vcTL0tk''"
    by code_simp
  have 4: "fst (Signup database0 ''carol'' ''pw'' ''inv1'' ''ua'' world0) =
             Inr carol_signup_session"
    using Signup_admitted [of world0 "''inv1''" database0 "''pw''" "[112, 119]" "''carol''"
        sample_bytes "''ua''"]
    by (simp add: world0_def database0_def tables0_def alice_session_def bob_session_def
        carol_signup_session_def t Session_insert_result Commit_def db_call_def)
  have 5: "tokens (DB (fst (snd (Signup database0 ''carol'' ''pw'' ''inv1'' ''ua'' world0)))) =
       [\<lparr>invite_token = ''inv1'', invite_remaining = 0\<rparr>,
        \<lparr>invite_token = ''inv0'', invite_remaining = 0\<rparr>]"
    using Signup_atomic [of database0 "''carol''" "''pw''" "''inv1''" "''ua''" world0] 4
    by (simp add: database0_def tables0_def)
  from 1 2 3 4 5 show ?thesis by simp
qed

end
